theory Spec2Isabelle
  imports Complex_Main
begin

section \<open>The statistics presenter (src/lib/presenters/statisticsPresenter.ts)\<close>

text \<open>
  The presenter created by \<^verbatim>\<open>createStatisticsPresenter\<close> is a closure over four mutable
  things: the svelte store \<^verbatim>\<open>state\<close>, the variables \<^verbatim>\<open>habits\<close>, \<^verbatim>\<open>completions\<close>
  and \<^verbatim>\<open>cache\<close>. They are the fields of the record \<open>world\<close> below, which every
  operation takes and returns. A fifth field, \<open>calls\<close>, logs every call the presenter
  makes on its two collaborators (the Local Store and the Remote Data Gateway), in the
  order in which the calls are issued.

  The collaborators are not part of the presenter: what they answer during a sync is a
  parameter, the record \<open>env\<close>. Every awaited promise is taken to settle, so that a call
  either gives a value or fails. A \<^verbatim>\<open>Date\<close> is its number of milliseconds since the
  epoch. JavaScript numbers are modelled as reals (rates) and integers (counts).

  Modelled are \<^verbatim>\<open>computeStatistics\<close>, \<^verbatim>\<open>saveToServerCache\<close>, \<^verbatim>\<open>getFetchFromDate\<close>,
  \<^verbatim>\<open>sync\<close>, \<^verbatim>\<open>setScope\<close>, \<^verbatim>\<open>setSelectedDate\<close> and \<^verbatim>\<open>refresh\<close>; \<^verbatim>\<open>initialize\<close> (which
  opens the cache, registers the listeners of the window and syncs) and \<^verbatim>\<open>clearCache\<close>
  are not. \<^verbatim>\<open>sync\<close> is modelled twice: as a function from the world before a call to
  the world after it, for a call that runs alone (\<open>sync\<close>), and run by run, from one
  \<^verbatim>\<open>await\<close> to the next, for calls that overlap (\<open>sync_start\<close>, \<open>sync_step\<close>). The two
  agree, which is lemma \<open>sync_stepwise\<close>.
\<close>

subsection \<open>Data\<close>

type_synonym date = int

datatype scope = Daily | Weekly | Monthly

text \<open>A thrown value or the reason of a rejected promise.\<close>

datatype exn = Error string

text \<open>
  \<^verbatim>\<open>Habit\<close> and \<^verbatim>\<open>HabitCompletion\<close> (\<^verbatim>\<open>$lib/types/habit\<close>). The presenter reads one
  field of a habit, \<^verbatim>\<open>userId\<close>, and none of a completion; the Local Store keys a
  completion by its habit and its calendar date.
\<close>

record habit =
  habit_id :: string
  userId :: string

record completion =
  completion_habitId :: string
  completion_date :: date
  completion_value :: real

record date_range =
  range_from :: date
  range_to :: date

text \<open>
  The cache metadata written by \<^verbatim>\<open>cache.setMetadata\<close>. \<^verbatim>\<open>userId\<close> is a string,
  \<^verbatim>\<open>null\<close> or missing (a cache written before ownership was recorded): \<open>None\<close>
  stands for both \<^verbatim>\<open>null\<close> and \<^verbatim>\<open>undefined\<close>, and so it does for the timestamps.
\<close>

record sync_metadata =
  lastHabitsSync :: "date option"
  lastCompletionsSync :: "date option"
  version :: int
  meta_userId :: "string option"

text \<open>
  The result types of \<^verbatim>\<open>$lib/stats\<close>, as far as the presenter reads them. The types
  it only passes along are type parameters: \<open>'t\<close> a \<^verbatim>\<open>HabitTrend\<close>, \<open>'c\<close> a
  \<^verbatim>\<open>HeatCell\<close>, \<open>'i\<close> the \<^verbatim>\<open>Insights\<close>, \<open>'a\<close> an \<^verbatim>\<open>ActivityItem\<close>, \<open>'b\<close> the
  best day and \<open>'p\<close> the highlight picked by \<^verbatim>\<open>findMostConsistent\<close> and
  \<^verbatim>\<open>findNeedsAttention\<close>.
\<close>

record rate_result =
  rate :: real
  completed :: int

record streak_result =
  currentStreak :: int
  longestStreak :: int

record 'b period_stats =
  ps_rangeLabel :: string
  ps_completionRate :: real
  ps_bestDay :: 'b
  ps_completions :: int
  ps_streak :: int
  ps_longestStreak :: int

record 'p snapshot_summary =
  sn_currentStreak :: int
  sn_overallCompletion :: real
  sn_weeklyDelta :: real
  sn_mostConsistent :: 'p
  sn_needsAttention :: 'p

text \<open>
  \<^verbatim>\<open>ComputedStatistics\<close>, and \<^verbatim>\<open>StatisticsState\<close> which has the same six fields and
  seven more: the state record extends the computed one, so that the spread
  \<^verbatim>\<open>{ ...s, ...computed }\<close> is the assignment of the six fields.
\<close>

record ('t, 'c, 'i, 'a, 'b, 'p) computed_statistics =
  periodStats :: "'b period_stats option"
  trends :: "'t list"
  heatmap :: "'c list"
  snapshot :: "'p snapshot_summary option"
  insights :: "'i option"
  activity :: "'a list"

record ('t, 'c, 'i, 'a, 'b, 'p) statistics_state =
  "('t, 'c, 'i, 'a, 'b, 'p) computed_statistics" +
  scope :: scope
  selectedDate :: date
  isLoading :: bool
  isSyncing :: bool
  isOffline :: bool
  error :: "string option"
  lastSync :: "date option"

text \<open>
  The functions and the constant the presenter imports from \<^verbatim>\<open>$lib/stats\<close>,
  \<^verbatim>\<open>./statisticsHelpers\<close> and \<^verbatim>\<open>$lib/constants\<close>. Their code is not part of the
  sources at hand, so they are parameters of the model: any functions of these types.
\<close>

record ('t, 'c, 'i, 'a, 'b, 'p) deps =
  getPeriodRanges :: "scope \<Rightarrow> date \<Rightarrow> date_range \<times> date_range"
  getHeatmapRange :: "scope \<Rightarrow> date \<Rightarrow> date_range"
  computeCompletionRate :: "habit list \<Rightarrow> completion list \<Rightarrow> date_range \<Rightarrow> rate_result"
  computeOverallStreak :: "habit list \<Rightarrow> completion list \<Rightarrow> date \<Rightarrow> streak_result"
  computeHeatmap :: "habit list \<Rightarrow> completion list \<Rightarrow> date_range \<Rightarrow> scope \<Rightarrow> 'c list"
  computeTrends :: "habit list \<Rightarrow> completion list \<Rightarrow> scope \<Rightarrow> date \<Rightarrow> 't list"
  computeInsights :: "habit list \<Rightarrow> completion list \<Rightarrow> date_range \<Rightarrow> date \<Rightarrow> 'i"
  findBestDayOfWeek :: "habit list \<Rightarrow> completion list \<Rightarrow> date_range \<Rightarrow> 'b"
  findBestDate :: "habit list \<Rightarrow> completion list \<Rightarrow> date_range \<Rightarrow> 'b"
  findMostConsistent :: "'t list \<Rightarrow> 'p"
  findNeedsAttention :: "'t list \<Rightarrow> 'p"
  formatRangeLabel :: "scope \<Rightarrow> date \<Rightarrow> string"
  buildActivity :: "'t list \<Rightarrow> 'a list"
  getDateKey :: "scope \<Rightarrow> date \<Rightarrow> string"
  HISTORY_DAYS :: int

subsection \<open>The Local Store\<close>

text \<open>
  Modelled from the spec: the Local Store (\<^verbatim>\<open>$lib/cache/statsCache\<close>), whose code is not
  part of the sources at hand. It holds the habits, the completions and the metadata;
  \<^verbatim>\<open>setHabits\<close> replaces the habits, \<^verbatim>\<open>addCompletions\<close> appends or replaces by
  (habit, date), \<^verbatim>\<open>setMetadata\<close> replaces the metadata, \<^verbatim>\<open>clearAll\<close> wipes the three,
  and the three reads return what is held.
\<close>

record stats_cache =
  cached_habits :: "habit list"
  cached_completions :: "completion list"
  cached_metadata :: "sync_metadata option"

definition same_key :: "completion \<Rightarrow> completion \<Rightarrow> bool" where
  "same_key x y =
     (completion_habitId x = completion_habitId y \<and> completion_date x = completion_date y)"

fun upsert :: "completion \<Rightarrow> completion list \<Rightarrow> completion list" where
  "upsert x [] = [x]"
| "upsert x (y # ys) = (if same_key x y then x # ys else y # upsert x ys)"

definition store_clearAll :: "stats_cache \<Rightarrow> stats_cache" where
  "store_clearAll c = \<lparr>cached_habits = [], cached_completions = [], cached_metadata = None\<rparr>"

definition store_setHabits :: "habit list \<Rightarrow> stats_cache \<Rightarrow> stats_cache" where
  "store_setHabits hs c = c\<lparr>cached_habits := hs\<rparr>"

definition store_addCompletions :: "completion list \<Rightarrow> stats_cache \<Rightarrow> stats_cache" where
  "store_addCompletions cs c = c\<lparr>cached_completions := fold upsert cs (cached_completions c)\<rparr>"

definition store_setMetadata :: "sync_metadata \<Rightarrow> stats_cache \<Rightarrow> stats_cache" where
  "store_setMetadata m c = c\<lparr>cached_metadata := Some m\<rparr>"

subsection \<open>The presenter's variables, the calls it makes, and its surroundings\<close>

datatype ('t, 'c, 'i, 'a, 'b, 'p) call =
    GetMetadata
  | ClearAll
  | SetHabits "habit list"
  | AddCompletions "completion list"
  | SetMetadata sync_metadata
  | GetHabits
  | GetCompletions
  | FetchHabits
  | FetchCompletions date
  | SetServerCache scope string "('t, 'c, 'i, 'a, 'b, 'p) computed_statistics" date

text \<open>
  \<open>cache\<close> is \<open>None\<close> while the variable \<^verbatim>\<open>cache\<close> is \<^verbatim>\<open>null\<close> (before
  \<^verbatim>\<open>initialize\<close>, or outside a browser), and holds the store's contents afterwards.
\<close>

record ('t, 'c, 'i, 'a, 'b, 'p) world =
  state :: "('t, 'c, 'i, 'a, 'b, 'p) statistics_state"
  habits :: "habit list"
  completions :: "completion list"
  cache :: "stats_cache option"
  calls :: "('t, 'c, 'i, 'a, 'b, 'p) call list"

text \<open>
  What the surroundings do during one run of \<^verbatim>\<open>sync\<close>: whether each call on the Local
  Store fails (\<open>Some\<close> the error) or succeeds, what the two fetches of the gateway give,
  whether the mirror call is rejected, what the clock shows at each \<^verbatim>\<open>new Date()\<close>, and
  the time zone of the browser. The time zone is ECMAScript's \<^verbatim>\<open>LocalTZA(t, isUTC)\<close>, the
  offset of the local time from UTC in milliseconds: for \<open>isUTC\<close> the offset in force at
  the instant \<open>t\<close>, otherwise the offset by which the local time \<open>t\<close> is read (where the
  clocks are set back and a local time occurs twice, the offset of before the change).
\<close>

record env =
  getMetadata_fails :: "exn option"
  clearAll_fails :: "exn option"
  setHabits_fails :: "exn option"
  addCompletions_fails :: "exn option"
  setMetadata_fails :: "exn option"
  getHabits_fails :: "exn option"
  getCompletions_fails :: "exn option"
  fetchHabits_result :: "exn + habit list"
  fetchCompletions_result :: "date \<Rightarrow> exn + completion list"
  setServerCache_fails :: "exn option"
  now_historyStart :: date
  now_habitsSync :: date
  now_completionsSync :: date
  now_validUntil :: date
  now_lastSync :: date
  localTZA :: "date \<Rightarrow> bool \<Rightarrow> int"

subsection \<open>Exceptions and awaited calls\<close>

text \<open>
  A piece of code that may throw is a function from the world to a result and the world
  it leaves: \<open>Inl\<close> an exception, \<open>Inr\<close> a value. What was done before the exception
  stays done.
\<close>

type_synonym ('x, 'w) attempt = "'w \<Rightarrow> (exn + 'x) \<times> 'w"

definition succeed :: "'x \<Rightarrow> ('x, 'w) attempt" where
  "succeed x w = (Inr x, w)"

definition throw_exn :: "exn \<Rightarrow> ('x, 'w) attempt" where
  "throw_exn e w = (Inl e, w)"

definition and_then :: "('x, 'w) attempt \<Rightarrow> ('x \<Rightarrow> ('y, 'w) attempt) \<Rightarrow> ('y, 'w) attempt" where
  "and_then m f w = (case m w of (Inl e, w') \<Rightarrow> (Inl e, w') | (Inr x, w') \<Rightarrow> f x w')"

definition try_catch :: "('x, 'w) attempt \<Rightarrow> (exn \<Rightarrow> ('x, 'w) attempt) \<Rightarrow> ('x, 'w) attempt" where
  "try_catch m h w = (case m w of (Inl e, w') \<Rightarrow> h e w' | (Inr x, w') \<Rightarrow> (Inr x, w'))"

definition logged :: "('t, 'c, 'i, 'a, 'b, 'p) call \<Rightarrow> ('t, 'c, 'i, 'a, 'b, 'p) world
    \<Rightarrow> ('t, 'c, 'i, 'a, 'b, 'p) world" where
  "logged ev w = w\<lparr>calls := calls w @ [ev]\<rparr>"

text \<open>
  A call that writes the Local Store, and a call that reads it. A method call on a
  \<^verbatim>\<open>null\<close> cache is JavaScript's TypeError (the presenter tests \<^verbatim>\<open>cache\<close> before every
  call). A failed write leaves the store as it was.
\<close>

definition cache_write :: "('t, 'c, 'i, 'a, 'b, 'p) call \<Rightarrow> exn option \<Rightarrow> (stats_cache \<Rightarrow> stats_cache)
    \<Rightarrow> (unit, ('t, 'c, 'i, 'a, 'b, 'p) world) attempt" where
  "cache_write ev failure f w =
     (case cache w of
        None \<Rightarrow> (Inl (Error ''TypeError''), w)
      | Some c \<Rightarrow>
          (case failure of
             Some e \<Rightarrow> (Inl e, logged ev w)
           | None \<Rightarrow> (Inr (), logged ev (w\<lparr>cache := Some (f c)\<rparr>))))"

definition cache_read :: "('t, 'c, 'i, 'a, 'b, 'p) call \<Rightarrow> exn option \<Rightarrow> (stats_cache \<Rightarrow> 'x)
    \<Rightarrow> ('x, ('t, 'c, 'i, 'a, 'b, 'p) world) attempt" where
  "cache_read ev failure g w =
     (case cache w of
        None \<Rightarrow> (Inl (Error ''TypeError''), w)
      | Some c \<Rightarrow>
          (case failure of
             Some e \<Rightarrow> (Inl e, logged ev w)
           | None \<Rightarrow> (Inr (g c), logged ev w)))"

definition cache_getMetadata :: "env \<Rightarrow> (sync_metadata option, ('t, 'c, 'i, 'a, 'b, 'p) world) attempt" where
  "cache_getMetadata E = cache_read GetMetadata (getMetadata_fails E) cached_metadata"

definition cache_getHabits :: "env \<Rightarrow> (habit list, ('t, 'c, 'i, 'a, 'b, 'p) world) attempt" where
  "cache_getHabits E = cache_read GetHabits (getHabits_fails E) cached_habits"

definition cache_getCompletions :: "env \<Rightarrow> (completion list, ('t, 'c, 'i, 'a, 'b, 'p) world) attempt" where
  "cache_getCompletions E = cache_read GetCompletions (getCompletions_fails E) cached_completions"

definition cache_clearAll :: "env \<Rightarrow> (unit, ('t, 'c, 'i, 'a, 'b, 'p) world) attempt" where
  "cache_clearAll E = cache_write ClearAll (clearAll_fails E) store_clearAll"

definition cache_setHabits :: "env \<Rightarrow> habit list \<Rightarrow> (unit, ('t, 'c, 'i, 'a, 'b, 'p) world) attempt" where
  "cache_setHabits E hs = cache_write (SetHabits hs) (setHabits_fails E) (store_setHabits hs)"

definition cache_addCompletions :: "env \<Rightarrow> completion list \<Rightarrow> (unit, ('t, 'c, 'i, 'a, 'b, 'p) world) attempt" where
  "cache_addCompletions E cs =
     cache_write (AddCompletions cs) (addCompletions_fails E) (store_addCompletions cs)"

definition cache_setMetadata :: "env \<Rightarrow> sync_metadata \<Rightarrow> (unit, ('t, 'c, 'i, 'a, 'b, 'p) world) attempt" where
  "cache_setMetadata E m = cache_write (SetMetadata m) (setMetadata_fails E) (store_setMetadata m)"

text \<open>The three calls on the Remote Data Gateway (\<^verbatim>\<open>$lib/api/statsApi\<close>).\<close>

definition api_fetchHabits :: "env \<Rightarrow> (habit list, ('t, 'c, 'i, 'a, 'b, 'p) world) attempt" where
  "api_fetchHabits E w = (fetchHabits_result E, logged FetchHabits w)"

definition api_fetchCompletions :: "env \<Rightarrow> date \<Rightarrow> (completion list, ('t, 'c, 'i, 'a, 'b, 'p) world) attempt" where
  "api_fetchCompletions E since w = (fetchCompletions_result E since, logged (FetchCompletions since) w)"

definition api_setServerCache :: "env \<Rightarrow> scope \<Rightarrow> string \<Rightarrow> ('t, 'c, 'i, 'a, 'b, 'p) computed_statistics
    \<Rightarrow> date \<Rightarrow> (unit, ('t, 'c, 'i, 'a, 'b, 'p) world) attempt" where
  "api_setServerCache E sc dateKey computed validUntil w =
     ((case setServerCache_fails E of Some e \<Rightarrow> Inl e | None \<Rightarrow> Inr ()),
      logged (SetServerCache sc dateKey computed validUntil) w)"

subsection \<open>The store of the published state\<close>

definition update :: "(('t, 'c, 'i, 'a, 'b, 'p) statistics_state \<Rightarrow> ('t, 'c, 'i, 'a, 'b, 'p) statistics_state)
    \<Rightarrow> ('t, 'c, 'i, 'a, 'b, 'p) world \<Rightarrow> ('t, 'c, 'i, 'a, 'b, 'p) world" where
  "update f w = w\<lparr>state := f (state w)\<rparr>"

definition getState :: "('t, 'c, 'i, 'a, 'b, 'p) world \<Rightarrow> ('t, 'c, 'i, 'a, 'b, 'p) statistics_state" where
  "getState w = state w"

text \<open>The spread \<^verbatim>\<open>{ ...s, isLoading: false, ...computed }\<close>.\<close>

definition spread_computed :: "('t, 'c, 'i, 'a, 'b, 'p) computed_statistics
    \<Rightarrow> ('t, 'c, 'i, 'a, 'b, 'p) statistics_state \<Rightarrow> ('t, 'c, 'i, 'a, 'b, 'p) statistics_state" where
  "spread_computed computed s =
     s\<lparr>isLoading := False,
       periodStats := periodStats computed,
       trends := trends computed,
       heatmap := heatmap computed,
       snapshot := snapshot computed,
       insights := insights computed,
       activity := activity computed\<rparr>"

subsection \<open>computeStatistics\<close>

definition computeStatistics :: "('t, 'c, 'i, 'a, 'b, 'p) deps \<Rightarrow> scope \<Rightarrow> date
    \<Rightarrow> ('t, 'c, 'i, 'a, 'b, 'p) world
    \<Rightarrow> ('t, 'c, 'i, 'a, 'b, 'p) computed_statistics option \<times> ('t, 'c, 'i, 'a, 'b, 'p) world" where
  "computeStatistics D sc d w =
     (if length (habits w) = 0 then
        (None,
         update (\<lambda>s. s\<lparr>isLoading := False, periodStats := None, trends := [], heatmap := [],
                       snapshot := None, insights := None, activity := []\<rparr>) w)
      else
        let currentRange = fst (getPeriodRanges D sc d);
            previousRange = snd (getPeriodRanges D sc d);
            heatmapRange = getHeatmapRange D sc d;
            currentRate = computeCompletionRate D (habits w) (completions w) currentRange;
            previousRate = computeCompletionRate D (habits w) (completions w) previousRange;
            overallStreak = computeOverallStreak D (habits w) (completions w) d;
            heatmap' = computeHeatmap D (habits w) (completions w) heatmapRange sc;
            trends' = computeTrends D (habits w) (completions w) sc d;
            insights' = computeInsights D (habits w) (completions w) heatmapRange d;
            periodStats' =
              \<lparr>ps_rangeLabel = formatRangeLabel D sc d,
               ps_completionRate = rate currentRate,
               ps_bestDay =
                 (if sc = Daily then findBestDayOfWeek D (habits w) (completions w) heatmapRange
                  else findBestDate D (habits w) (completions w) currentRange),
               ps_completions = completed currentRate,
               ps_streak = currentStreak overallStreak,
               ps_longestStreak = longestStreak overallStreak\<rparr>;
            snapshot' =
              \<lparr>sn_currentStreak = currentStreak overallStreak,
               sn_overallCompletion = rate currentRate,
               sn_weeklyDelta = rate currentRate - rate previousRate,
               sn_mostConsistent = findMostConsistent D trends',
               sn_needsAttention = findNeedsAttention D trends'\<rparr>;
            computed =
              \<lparr>periodStats = Some periodStats',
               trends = trends',
               heatmap = heatmap',
               snapshot = Some snapshot',
               insights = Some insights',
               activity = buildActivity D trends'\<rparr>
        in (Some computed, update (spread_computed computed) w))"

subsection \<open>sync\<close>

text \<open>
  The setters of a \<^verbatim>\<open>Date\<close> work on the local time. ECMAScript's \<^verbatim>\<open>LocalTime(t)\<close> is
  the local time at the instant \<open>t\<close> and \<^verbatim>\<open>UTC(t)\<close> the instant of the local time \<open>t\<close>.
\<close>

definition LocalTime :: "env \<Rightarrow> date \<Rightarrow> date" where
  "LocalTime E t = t + localTZA E t True"

definition UTC :: "env \<Rightarrow> date \<Rightarrow> date" where
  "UTC E t = t - localTZA E t False"

text \<open>
  \<^verbatim>\<open>d.setHours(d.getHours() + 1)\<close>: \<^verbatim>\<open>getHours\<close> is the hour of the local time, and
  \<^verbatim>\<open>setHours(h)\<close> makes the date of the local day, the hour \<open>h\<close> and the local minutes,
  seconds and milliseconds, and converts it to an instant. The hour being one more than
  it was, the local time made is 3600000 ms after the local time of \<open>d\<close> (an hour of 24
  is the hour 0 of the next day). Likewise \<^verbatim>\<open>d.setDate(d.getDate() - n)\<close> makes the local
  time \<open>n\<close> days of 86400000 ms before the local time of \<open>d\<close>.
\<close>

definition setHours_getHours_plus :: "env \<Rightarrow> int \<Rightarrow> date \<Rightarrow> date" where
  "setHours_getHours_plus E n d = UTC E (LocalTime E d + n * 3600000)"

definition setDate_getDate_minus :: "env \<Rightarrow> int \<Rightarrow> date \<Rightarrow> date" where
  "setDate_getDate_minus E n d = UTC E (LocalTime E d - n * 86400000)"

definition getFetchFromDate :: "('t, 'c, 'i, 'a, 'b, 'p) deps \<Rightarrow> env \<Rightarrow> date_range \<Rightarrow> date" where
  "getFetchFromDate D E heatmapRange =
     (let historyStart = setDate_getDate_minus E (HISTORY_DAYS D) (now_historyStart E)
      in if range_from heatmapRange < historyStart then range_from heatmapRange else historyStart)"

text \<open>
  The rejection of \<^verbatim>\<open>api.setServerCache\<close> goes to \<^verbatim>\<open>.catch(() => {})\<close>; the call is
  not awaited.
\<close>

definition saveToServerCache :: "('t, 'c, 'i, 'a, 'b, 'p) deps \<Rightarrow> env \<Rightarrow> scope \<Rightarrow> date
    \<Rightarrow> ('t, 'c, 'i, 'a, 'b, 'p) computed_statistics
    \<Rightarrow> ('t, 'c, 'i, 'a, 'b, 'p) world \<Rightarrow> ('t, 'c, 'i, 'a, 'b, 'p) world" where
  "saveToServerCache D E sc d computed w =
     (let dateKey = getDateKey D sc d;
          validUntil = setHours_getHours_plus E 1 (now_validUntil E)
      in snd (try_catch (api_setServerCache E sc dateKey computed validUntil)
                (\<lambda>e. succeed ()) w))"

text \<open>
  JavaScript's truthiness of a \<^verbatim>\<open>string | null | undefined\<close>: the empty string is falsy
  as \<^verbatim>\<open>null\<close> is. A \<^verbatim>\<open>Date\<close> is truthy, so a timestamp is truthy when it is there.
\<close>

definition truthy :: "string option \<Rightarrow> bool" where
  "truthy u = (case u of None \<Rightarrow> False | Some s \<Rightarrow> s \<noteq> [])"

text \<open>\<^verbatim>\<open>metadata?.userId\<close> and \<^verbatim>\<open>metadata?.lastHabitsSync\<close>.\<close>

definition userId_of :: "sync_metadata option \<Rightarrow> string option" where
  "userId_of metadata = (case metadata of None \<Rightarrow> None | Some m \<Rightarrow> meta_userId m)"

definition lastHabitsSync_of :: "sync_metadata option \<Rightarrow> date option" where
  "lastHabitsSync_of metadata = (case metadata of None \<Rightarrow> None | Some m \<Rightarrow> lastHabitsSync m)"

text \<open>\<^verbatim>\<open>freshHabits.length > 0 ? freshHabits[0].userId : null\<close>\<close>

definition currentUserId :: "habit list \<Rightarrow> string option" where
  "currentUserId freshHabits = (case freshHabits of [] \<Rightarrow> None | h # _ \<Rightarrow> Some (userId h))"

definition cacheHasData :: "sync_metadata option \<Rightarrow> bool" where
  "cacheHasData metadata = (lastHabitsSync_of metadata \<noteq> None)"

definition cacheHasNoUserId :: "sync_metadata option \<Rightarrow> bool" where
  "cacheHasNoUserId metadata = (cacheHasData metadata \<and> \<not> truthy (userId_of metadata))"

definition userIdMismatch :: "sync_metadata option \<Rightarrow> string option \<Rightarrow> bool" where
  "userIdMismatch metadata cur =
     (truthy (userId_of metadata) \<and> truthy cur \<and> userId_of metadata \<noteq> cur)"

definition suspiciousCache :: "sync_metadata option \<Rightarrow> string option \<Rightarrow> bool" where
  "suspiciousCache metadata cur = (\<not> truthy cur \<and> cacheHasData metadata)"

text \<open>The body of the inner \<^verbatim>\<open>try\<close>: the fresh fetch.\<close>

definition sync_fresh :: "env \<Rightarrow> date \<Rightarrow> sync_metadata option
    \<Rightarrow> (unit, ('t, 'c, 'i, 'a, 'b, 'p) world) attempt" where
  "sync_fresh E fetchFrom metadata =
     and_then (api_fetchHabits E) (\<lambda>freshHabits.
     and_then (\<lambda>w.
       if cache w \<noteq> None \<and>
          (cacheHasNoUserId metadata \<or> userIdMismatch metadata (currentUserId freshHabits) \<or>
           suspiciousCache metadata (currentUserId freshHabits))
       then cache_clearAll E w
       else succeed () w) (\<lambda>_.
     and_then (\<lambda>w. succeed () (w\<lparr>habits := freshHabits\<rparr>)) (\<lambda>_.
     and_then (api_fetchCompletions E fetchFrom) (\<lambda>fetched.
     and_then (\<lambda>w. succeed () (w\<lparr>completions := fetched\<rparr>)) (\<lambda>_.
     and_then (\<lambda>w.
       if cache w \<noteq> None then
         and_then (cache_setHabits E (habits w)) (\<lambda>_.
         and_then (cache_addCompletions E (completions w)) (\<lambda>_.
         cache_setMetadata E
           \<lparr>lastHabitsSync = Some (now_habitsSync E),
            lastCompletionsSync = Some (now_completionsSync E),
            version = 1,
            meta_userId = currentUserId freshHabits\<rparr>)) w
       else succeed () w) (\<lambda>_.
     (\<lambda>w. succeed () (update (\<lambda>s. s\<lparr>isOffline := False\<rparr>) w))))))))"

text \<open>The inner \<^verbatim>\<open>catch\<close>: the cache is used only if its ownership can be validated.\<close>

definition sync_fallback :: "env \<Rightarrow> sync_metadata option \<Rightarrow> exn
    \<Rightarrow> (unit, ('t, 'c, 'i, 'a, 'b, 'p) world) attempt" where
  "sync_fallback E metadata err =
     (\<lambda>w.
       if cache w \<noteq> None \<and> lastHabitsSync_of metadata \<noteq> None \<and> truthy (userId_of metadata)
       then
         and_then (cache_getHabits E) (\<lambda>hs.
         and_then (\<lambda>w. succeed () (w\<lparr>habits := hs\<rparr>)) (\<lambda>_.
         and_then (cache_getCompletions E) (\<lambda>cs.
         and_then (\<lambda>w. succeed () (w\<lparr>completions := cs\<rparr>)) (\<lambda>_.
         (\<lambda>w. succeed () (update (\<lambda>s. s\<lparr>isOffline := True\<rparr>) w)))))) w
       else throw_exn err w)"

text \<open>
  \<^verbatim>\<open>sync\<close> is cut in two where it reads the metadata, which is its first \<^verbatim>\<open>await\<close> when
  the cache is open: \<open>sync_begin\<close> is the part before, which runs without interruption,
  and gives the two locals the rest needs, \<^verbatim>\<open>currentState\<close> and \<^verbatim>\<open>fetchFrom\<close>.
  \<open>sync_body\<close> is the rest of the outer \<^verbatim>\<open>try\<close>, whose last statements (the
  recomputation, the mirror call and the publication of \<^verbatim>\<open>lastSync\<close>) are
  \<open>sync_publish\<close>; \<open>sync_resume\<close> adds the outer \<^verbatim>\<open>catch\<close>.
\<close>

definition sync_begin :: "('t, 'c, 'i, 'a, 'b, 'p) deps \<Rightarrow> env \<Rightarrow> ('t, 'c, 'i, 'a, 'b, 'p) world
    \<Rightarrow> (('t, 'c, 'i, 'a, 'b, 'p) statistics_state \<times> date) \<times> ('t, 'c, 'i, 'a, 'b, 'p) world" where
  "sync_begin D E w =
     (let w1 = update (\<lambda>s. s\<lparr>isSyncing := True, error := None\<rparr>) w;
          currentState = getState w1;
          heatmapRange = getHeatmapRange D (scope currentState) (selectedDate currentState);
          fetchFrom = getFetchFromDate D E heatmapRange
      in ((currentState, fetchFrom), w1))"

definition sync_publish :: "('t, 'c, 'i, 'a, 'b, 'p) deps \<Rightarrow> env
    \<Rightarrow> ('t, 'c, 'i, 'a, 'b, 'p) statistics_state
    \<Rightarrow> (unit, ('t, 'c, 'i, 'a, 'b, 'p) world) attempt" where
  "sync_publish D E currentState w =
     (let r = computeStatistics D (scope currentState) (selectedDate currentState) w;
          w' = (case fst r of
                  None \<Rightarrow> snd r
                | Some computed \<Rightarrow>
                    saveToServerCache D E (scope currentState) (selectedDate currentState)
                      computed (snd r))
      in succeed () (update (\<lambda>s. s\<lparr>isSyncing := False, lastSync := Some (now_lastSync E)\<rparr>) w'))"

definition sync_body :: "('t, 'c, 'i, 'a, 'b, 'p) deps \<Rightarrow> env
    \<Rightarrow> ('t, 'c, 'i, 'a, 'b, 'p) statistics_state \<Rightarrow> date
    \<Rightarrow> (unit, ('t, 'c, 'i, 'a, 'b, 'p) world) attempt" where
  "sync_body D E currentState fetchFrom =
     and_then (\<lambda>w. if cache w \<noteq> None then cache_getMetadata E w else succeed None w) (\<lambda>metadata.
     and_then (try_catch (sync_fresh E fetchFrom metadata) (sync_fallback E metadata)) (\<lambda>_.
     sync_publish D E currentState))"

text \<open>The outer \<^verbatim>\<open>catch\<close>.\<close>

definition sync_catch :: "('t, 'c, 'i, 'a, 'b, 'p) world \<Rightarrow> ('t, 'c, 'i, 'a, 'b, 'p) world" where
  "sync_catch w =
     update (\<lambda>s. s\<lparr>isLoading := False, isSyncing := False,
                   error := Some ''Failed to load statistics. Please try again.''\<rparr>) w"

definition sync_resume :: "('t, 'c, 'i, 'a, 'b, 'p) deps \<Rightarrow> env
    \<Rightarrow> ('t, 'c, 'i, 'a, 'b, 'p) statistics_state \<times> date
    \<Rightarrow> ('t, 'c, 'i, 'a, 'b, 'p) world \<Rightarrow> ('t, 'c, 'i, 'a, 'b, 'p) world" where
  "sync_resume D E locals w =
     (case sync_body D E (fst locals) (snd locals) w of
        (Inr _, w') \<Rightarrow> w'
      | (Inl e, w') \<Rightarrow> sync_catch w')"

definition sync :: "('t, 'c, 'i, 'a, 'b, 'p) deps \<Rightarrow> env \<Rightarrow> ('t, 'c, 'i, 'a, 'b, 'p) world
    \<Rightarrow> ('t, 'c, 'i, 'a, 'b, 'p) world" where
  "sync D E w = sync_resume D E (fst (sync_begin D E w)) (snd (sync_begin D E w))"

subsection \<open>The intents\<close>

definition setScope :: "('t, 'c, 'i, 'a, 'b, 'p) deps \<Rightarrow> scope \<Rightarrow> ('t, 'c, 'i, 'a, 'b, 'p) world
    \<Rightarrow> ('t, 'c, 'i, 'a, 'b, 'p) world" where
  "setScope D sc w =
     (let w1 = update (\<lambda>s. s\<lparr>scope := sc, isLoading := True\<rparr>) w;
          currentState = getState w1
      in snd (computeStatistics D sc (selectedDate currentState) w1))"

definition setSelectedDate :: "('t, 'c, 'i, 'a, 'b, 'p) deps \<Rightarrow> date \<Rightarrow> ('t, 'c, 'i, 'a, 'b, 'p) world
    \<Rightarrow> ('t, 'c, 'i, 'a, 'b, 'p) world" where
  "setSelectedDate D d w =
     (let w1 = update (\<lambda>s. s\<lparr>selectedDate := d, isLoading := True\<rparr>) w;
          currentState = getState w1
      in snd (computeStatistics D (scope currentState) d w1))"

definition refresh :: "('t, 'c, 'i, 'a, 'b, 'p) deps \<Rightarrow> env \<Rightarrow> ('t, 'c, 'i, 'a, 'b, 'p) world
    \<Rightarrow> ('t, 'c, 'i, 'a, 'b, 'p) world" where
  "refresh D E w = sync D E w"

subsection \<open>Overlapping calls of sync\<close>

text \<open>
  An async function runs without interruption from one \<^verbatim>\<open>await\<close> to the next. \<^verbatim>\<open>sync\<close>
  awaits nothing but calls on its collaborators; such a call is issued, and logged, by
  the run that reaches its \<^verbatim>\<open>await\<close>, and the function is resumed later with the
  outcome of the call. Between two runs a call of \<^verbatim>\<open>sync\<close> is therefore waiting for one
  of nine calls, or it is settled. \<open>pending\<close> says which, together with the locals the
  rest of the function reads (\<^verbatim>\<open>metadata\<close>, \<^verbatim>\<open>freshHabits\<close>) and the outcome it will be
  resumed with. As the Local Store is modelled, a call on it takes effect at the moment
  it is issued, and its outcome is decided then.
\<close>

datatype pending =
    Await_getMetadata "exn + sync_metadata option"
  | Await_fetchHabits "sync_metadata option" "exn + habit list"
  | Await_clearAll "sync_metadata option" "habit list" "exn + unit"
  | Await_fetchCompletions "sync_metadata option" "habit list" "exn + completion list"
  | Await_setHabits "sync_metadata option" "habit list" "exn + unit"
  | Await_addCompletions "sync_metadata option" "habit list" "exn + unit"
  | Await_setMetadata "sync_metadata option" "exn + unit"
  | Await_getHabits "exn + habit list"
  | Await_getCompletions "exn + completion list"
  | Settled

text \<open>
  To issue a call and wait for it: the call is made on the world, and its outcome is
  kept for the resumption.
\<close>

definition issue :: "('x, 'w) attempt \<Rightarrow> (exn + 'x \<Rightarrow> pending) \<Rightarrow> 'w \<Rightarrow> pending \<times> 'w" where
  "issue call k w = (k (fst (call w)), snd (call w))"

text \<open>
  The inner \<^verbatim>\<open>catch\<close> up to its first \<^verbatim>\<open>await\<close>; the statements from \<^verbatim>\<open>habits = freshHabits\<close>
  to the \<^verbatim>\<open>await\<close> of \<^verbatim>\<open>api.fetchCompletions\<close>; and the last statements of the outer
  \<^verbatim>\<open>try\<close>, which await nothing.
\<close>

definition inner_catch :: "env \<Rightarrow> sync_metadata option \<Rightarrow> ('t, 'c, 'i, 'a, 'b, 'p) world
    \<Rightarrow> pending \<times> ('t, 'c, 'i, 'a, 'b, 'p) world" where
  "inner_catch E metadata w =
     (if cache w \<noteq> None \<and> lastHabitsSync_of metadata \<noteq> None \<and> truthy (userId_of metadata)
      then issue (cache_getHabits E) Await_getHabits w
      else (Settled, sync_catch w))"

definition assign_habits :: "env \<Rightarrow> date \<Rightarrow> sync_metadata option \<Rightarrow> habit list
    \<Rightarrow> ('t, 'c, 'i, 'a, 'b, 'p) world \<Rightarrow> pending \<times> ('t, 'c, 'i, 'a, 'b, 'p) world" where
  "assign_habits E fetchFrom metadata freshHabits w =
     issue (api_fetchCompletions E fetchFrom) (Await_fetchCompletions metadata freshHabits)
       (w\<lparr>habits := freshHabits\<rparr>)"

definition publish :: "('t, 'c, 'i, 'a, 'b, 'p) deps \<Rightarrow> env \<Rightarrow> ('t, 'c, 'i, 'a, 'b, 'p) statistics_state
    \<Rightarrow> ('t, 'c, 'i, 'a, 'b, 'p) world \<Rightarrow> pending \<times> ('t, 'c, 'i, 'a, 'b, 'p) world" where
  "publish D E currentState w =
     (case sync_publish D E currentState w of
        (Inr _, w') \<Rightarrow> (Settled, w')
      | (Inl e, w') \<Rightarrow> (Settled, sync_catch w'))"

text \<open>
  One run of \<^verbatim>\<open>sync\<close>, from its resumption with the outcome of the awaited call to the
  next \<^verbatim>\<open>await\<close> or to its end. \<open>locals\<close> are \<^verbatim>\<open>currentState\<close> and \<^verbatim>\<open>fetchFrom\<close>.
\<close>

definition sync_step :: "('t, 'c, 'i, 'a, 'b, 'p) deps \<Rightarrow> env
    \<Rightarrow> ('t, 'c, 'i, 'a, 'b, 'p) statistics_state \<times> date \<Rightarrow> pending
    \<Rightarrow> ('t, 'c, 'i, 'a, 'b, 'p) world \<Rightarrow> pending \<times> ('t, 'c, 'i, 'a, 'b, 'p) world" where
  "sync_step D E locals p w =
     (case p of
        Await_getMetadata r \<Rightarrow>
          (case r of
             Inl e \<Rightarrow> (Settled, sync_catch w)
           | Inr metadata \<Rightarrow> issue (api_fetchHabits E) (Await_fetchHabits metadata) w)
      | Await_fetchHabits metadata r \<Rightarrow>
          (case r of
             Inl e \<Rightarrow> inner_catch E metadata w
           | Inr freshHabits \<Rightarrow>
               if cache w \<noteq> None \<and>
                  (cacheHasNoUserId metadata \<or>
                   userIdMismatch metadata (currentUserId freshHabits) \<or>
                   suspiciousCache metadata (currentUserId freshHabits))
               then issue (cache_clearAll E) (Await_clearAll metadata freshHabits) w
               else assign_habits E (snd locals) metadata freshHabits w)
      | Await_clearAll metadata freshHabits r \<Rightarrow>
          (case r of
             Inl e \<Rightarrow> inner_catch E metadata w
           | Inr _ \<Rightarrow> assign_habits E (snd locals) metadata freshHabits w)
      | Await_fetchCompletions metadata freshHabits r \<Rightarrow>
          (case r of
             Inl e \<Rightarrow> inner_catch E metadata w
           | Inr fetched \<Rightarrow>
               if cache w \<noteq> None
               then issue (cache_setHabits E (habits w)) (Await_setHabits metadata freshHabits)
                      (w\<lparr>completions := fetched\<rparr>)
               else publish D E (fst locals)
                      (update (\<lambda>s. s\<lparr>isOffline := False\<rparr>) (w\<lparr>completions := fetched\<rparr>)))
      | Await_setHabits metadata freshHabits r \<Rightarrow>
          (case r of
             Inl e \<Rightarrow> inner_catch E metadata w
           | Inr _ \<Rightarrow>
               issue (cache_addCompletions E (completions w))
                 (Await_addCompletions metadata freshHabits) w)
      | Await_addCompletions metadata freshHabits r \<Rightarrow>
          (case r of
             Inl e \<Rightarrow> inner_catch E metadata w
           | Inr _ \<Rightarrow>
               issue (cache_setMetadata E
                        \<lparr>lastHabitsSync = Some (now_habitsSync E),
                         lastCompletionsSync = Some (now_completionsSync E),
                         version = 1,
                         meta_userId = currentUserId freshHabits\<rparr>)
                 (Await_setMetadata metadata) w)
      | Await_setMetadata metadata r \<Rightarrow>
          (case r of
             Inl e \<Rightarrow> inner_catch E metadata w
           | Inr _ \<Rightarrow> publish D E (fst locals) (update (\<lambda>s. s\<lparr>isOffline := False\<rparr>) w))
      | Await_getHabits r \<Rightarrow>
          (case r of
             Inl e \<Rightarrow> (Settled, sync_catch w)
           | Inr hs \<Rightarrow> issue (cache_getCompletions E) Await_getCompletions (w\<lparr>habits := hs\<rparr>))
      | Await_getCompletions r \<Rightarrow>
          (case r of
             Inl e \<Rightarrow> (Settled, sync_catch w)
           | Inr cs \<Rightarrow>
               publish D E (fst locals)
                 (update (\<lambda>s. s\<lparr>isOffline := True\<rparr>) (w\<lparr>completions := cs\<rparr>)))
      | Settled \<Rightarrow> (Settled, w))"

text \<open>
  The first run, which is the call \<^verbatim>\<open>sync()\<close> itself: it ends at the \<^verbatim>\<open>await\<close> of
  \<^verbatim>\<open>cache.getMetadata()\<close> when the cache is open, and at that of \<^verbatim>\<open>api.fetchHabits()\<close>
  otherwise, having issued that call.
\<close>

definition sync_start :: "('t, 'c, 'i, 'a, 'b, 'p) deps \<Rightarrow> env \<Rightarrow> ('t, 'c, 'i, 'a, 'b, 'p) world
    \<Rightarrow> (('t, 'c, 'i, 'a, 'b, 'p) statistics_state \<times> date)
        \<times> pending \<times> ('t, 'c, 'i, 'a, 'b, 'p) world" where
  "sync_start D E w =
     (let b = sync_begin D E w
      in (fst b,
          if cache (snd b) \<noteq> None
          then issue (cache_getMetadata E) Await_getMetadata (snd b)
          else issue (api_fetchHabits E) (Await_fetchHabits None) (snd b)))"

text \<open>
  Two calls of \<^verbatim>\<open>refresh()\<close>, the second made without awaiting the first: the first runs
  of the two calls happen one after the other, and then the two calls are resumed in an
  order that the settling of the awaited promises decides, the schedule. Resuming a
  settled call does nothing. \<open>E1\<close> and \<open>E2\<close> are what the surroundings answer to the
  first and to the second call.
\<close>

datatype turn = First | Second

fun interleave :: "('t, 'c, 'i, 'a, 'b, 'p) deps \<Rightarrow> env \<Rightarrow> env
    \<Rightarrow> ('t, 'c, 'i, 'a, 'b, 'p) statistics_state \<times> date
    \<Rightarrow> ('t, 'c, 'i, 'a, 'b, 'p) statistics_state \<times> date
    \<Rightarrow> turn list \<Rightarrow> pending \<times> pending \<times> ('t, 'c, 'i, 'a, 'b, 'p) world
    \<Rightarrow> pending \<times> pending \<times> ('t, 'c, 'i, 'a, 'b, 'p) world" where
  "interleave D E1 E2 l1 l2 [] s = s"
| "interleave D E1 E2 l1 l2 (First # ts) (p1, p2, w) =
     interleave D E1 E2 l1 l2 ts
       (fst (sync_step D E1 l1 p1 w), p2, snd (sync_step D E1 l1 p1 w))"
| "interleave D E1 E2 l1 l2 (Second # ts) (p1, p2, w) =
     interleave D E1 E2 l1 l2 ts
       (p1, fst (sync_step D E2 l2 p2 w), snd (sync_step D E2 l2 p2 w))"

definition refresh_twice :: "('t, 'c, 'i, 'a, 'b, 'p) deps \<Rightarrow> env \<Rightarrow> env \<Rightarrow> turn list
    \<Rightarrow> ('t, 'c, 'i, 'a, 'b, 'p) world \<Rightarrow> pending \<times> pending \<times> ('t, 'c, 'i, 'a, 'b, 'p) world" where
  "refresh_twice D E1 E2 ts w =
     (let first_call = sync_start D E1 w;
          second_call = sync_start D E2 (snd (snd first_call))
      in interleave D E1 E2 (fst first_call) (fst second_call) ts
           (fst (snd first_call), fst (snd second_call), snd (snd second_call)))"

text \<open>The calls issued by an operation: what it appended to the log.\<close>

definition new_calls :: "('t, 'c, 'i, 'a, 'b, 'p) world \<Rightarrow> ('t, 'c, 'i, 'a, 'b, 'p) world
    \<Rightarrow> ('t, 'c, 'i, 'a, 'b, 'p) call list" where
  "new_calls w w' = drop (length (calls w)) (calls w')"

subsection \<open>Notions used in the statements\<close>

text \<open>The six statistics fields of a published state.\<close>

definition stats_of :: "('t, 'c, 'i, 'a, 'b, 'p) statistics_state
    \<Rightarrow> ('t, 'c, 'i, 'a, 'b, 'p) computed_statistics" where
  "stats_of s =
     \<lparr>periodStats = periodStats s, trends = trends s, heatmap = heatmap s,
      snapshot = snapshot s, insights = insights s, activity = activity s\<rparr>"

text \<open>What \<^verbatim>\<open>cache ? await cache.getMetadata() : null\<close> gives when the read succeeds.\<close>

definition metadata_read :: "('t, 'c, 'i, 'a, 'b, 'p) world \<Rightarrow> sync_metadata option" where
  "metadata_read w = (case cache w of None \<Rightarrow> None | Some c \<Rightarrow> cached_metadata c)"

text \<open>The test of the inner \<^verbatim>\<open>catch\<close>, on the world it runs in.\<close>

definition trusted :: "('t, 'c, 'i, 'a, 'b, 'p) world \<Rightarrow> bool" where
  "trusted w =
     (cache w \<noteq> None \<and> lastHabitsSync_of (metadata_read w) \<noteq> None \<and>
      truthy (userId_of (metadata_read w)))"

text \<open>The test that guards \<^verbatim>\<open>cache.clearAll()\<close>, the cache being open.\<close>

definition must_clear :: "sync_metadata option \<Rightarrow> habit list \<Rightarrow> bool" where
  "must_clear metadata freshHabits =
     (cacheHasNoUserId metadata \<or> userIdMismatch metadata (currentUserId freshHabits) \<or>
      suspiciousCache metadata (currentUserId freshHabits))"

text \<open>
  The calls that write data into the Local Store, and the property of a log that
  \<^verbatim>\<open>clearAll\<close> is called in it before the first of them.
\<close>

fun is_write :: "('t, 'c, 'i, 'a, 'b, 'p) call \<Rightarrow> bool" where
  "is_write (SetHabits hs) = True"
| "is_write (AddCompletions cs) = True"
| "is_write (SetMetadata m) = True"
| "is_write ev = False"

definition clearAll_before_writing :: "('t, 'c, 'i, 'a, 'b, 'p) call list \<Rightarrow> bool" where
  "clearAll_before_writing evs = (ClearAll \<in> set (takeWhile (\<lambda>ev. \<not> is_write ev) evs))"

text \<open>What \<^verbatim>\<open>computeStatistics\<close> publishes when there is no habit.\<close>

definition no_statistics :: "('t, 'c, 'i, 'a, 'b, 'p) computed_statistics" where
  "no_statistics =
     \<lparr>periodStats = None, trends = [], heatmap = [], snapshot = None, insights = None,
      activity = []\<rparr>"


text \<open>
  A call of \<^verbatim>\<open>sync\<close> resumed \<open>n\<close> times in a row, nothing else running in between; the
  greatest number of resumptions a pending call may still need; and the number of
  \<^verbatim>\<open>fetchHabits\<close> calls a pending call is still to issue.
\<close>

fun sync_steps :: "('t, 'c, 'i, 'a, 'b, 'p) deps \<Rightarrow> env
    \<Rightarrow> ('t, 'c, 'i, 'a, 'b, 'p) statistics_state \<times> date \<Rightarrow> nat
    \<Rightarrow> pending \<times> ('t, 'c, 'i, 'a, 'b, 'p) world \<Rightarrow> pending \<times> ('t, 'c, 'i, 'a, 'b, 'p) world" where
  "sync_steps D E l 0 s = s"
| "sync_steps D E l (Suc n) s = sync_steps D E l n (sync_step D E l (fst s) (snd s))"

fun awaits_left :: "pending \<Rightarrow> nat" where
  "awaits_left (Await_getMetadata r) = 9"
| "awaits_left (Await_fetchHabits m r) = 8"
| "awaits_left (Await_clearAll m hs r) = 7"
| "awaits_left (Await_fetchCompletions m hs r) = 6"
| "awaits_left (Await_setHabits m hs r) = 5"
| "awaits_left (Await_addCompletions m hs r) = 4"
| "awaits_left (Await_setMetadata m r) = 3"
| "awaits_left (Await_getHabits r) = 2"
| "awaits_left (Await_getCompletions r) = 1"
| "awaits_left Settled = 0"

fun fetches_ahead :: "pending \<Rightarrow> nat" where
  "fetches_ahead (Await_getMetadata (Inr m)) = 1"
| "fetches_ahead p = 0"

subsection \<open>A presenter to run\<close>

text \<open>
  The state a presenter starts in, stand-ins for the functions of \<^verbatim>\<open>$lib/stats\<close>, and a
  few habits, caches and surroundings: the inputs on which the properties below are run.
\<close>

definition initialState :: "scope \<Rightarrow> date \<Rightarrow> ('t, 'c, 'i, 'a, 'b, 'p) statistics_state" where
  "initialState initialScope initialDate =
     \<lparr>periodStats = None, trends = [], heatmap = [], snapshot = None, insights = None,
      activity = [], scope = initialScope, selectedDate = initialDate, isLoading = True,
      isSyncing = False, isOffline = False, error = None, lastSync = None\<rparr>"

definition example_deps :: "(string, nat, nat, string, nat, nat) deps" where
  "example_deps =
     \<lparr>getPeriodRanges = (\<lambda>sc d. (\<lparr>range_from = d, range_to = d\<rparr>,
                                  \<lparr>range_from = d - 86400000, range_to = d - 86400000\<rparr>)),
      getHeatmapRange = (\<lambda>sc d. \<lparr>range_from = d - 30 * 86400000, range_to = d\<rparr>),
      computeCompletionRate = (\<lambda>hs cs r. \<lparr>rate = 1, completed = int (length cs)\<rparr>),
      computeOverallStreak = (\<lambda>hs cs d. \<lparr>currentStreak = 1, longestStreak = 1\<rparr>),
      computeHeatmap = (\<lambda>hs cs r sc. [length cs]),
      computeTrends = (\<lambda>hs cs sc d. map habit_id hs),
      computeInsights = (\<lambda>hs cs r d. length hs),
      findBestDayOfWeek = (\<lambda>hs cs r. 0),
      findBestDate = (\<lambda>hs cs r. 1),
      findMostConsistent = length,
      findNeedsAttention = length,
      formatRangeLabel = (\<lambda>sc d. ''today''),
      buildActivity = (\<lambda>ts. ts),
      getDateKey = (\<lambda>sc d. ''key''),
      HISTORY_DAYS = 90\<rparr>"

definition habit_of :: "string \<Rightarrow> habit" where
  "habit_of u = \<lparr>habit_id = ''h-'' @ u, userId = u\<rparr>"

definition completion_of :: "string \<Rightarrow> completion" where
  "completion_of u = \<lparr>completion_habitId = ''h-'' @ u, completion_date = 0, completion_value = 1\<rparr>"

definition cache_of :: "string option \<Rightarrow> stats_cache" where
  "cache_of u =
     \<lparr>cached_habits = [habit_of ''A''], cached_completions = [completion_of ''A''],
      cached_metadata = Some \<lparr>lastHabitsSync = Some 1000, lastCompletionsSync = Some 1000,
                              version = 1, meta_userId = u\<rparr>\<rparr>"

definition world_with :: "stats_cache option \<Rightarrow> (string, nat, nat, string, nat, nat) world" where
  "world_with c =
     \<lparr>state = initialState Daily 5000000000, habits = [], completions = [], cache = c, calls = []\<rparr>"

definition online :: "habit list \<Rightarrow> completion list \<Rightarrow> env" where
  "online hs cs =
     \<lparr>getMetadata_fails = None, clearAll_fails = None, setHabits_fails = None,
      addCompletions_fails = None, setMetadata_fails = None, getHabits_fails = None,
      getCompletions_fails = None, fetchHabits_result = Inr hs,
      fetchCompletions_result = (\<lambda>since. Inr cs), setServerCache_fails = None,
      now_historyStart = 9000000000, now_habitsSync = 9000000001, now_completionsSync = 9000000002,
      now_validUntil = 9000000003, now_lastSync = 9000000004,
      localTZA = (\<lambda>t isUTC. 0)\<rparr>"

definition offline :: env where
  "offline = (online [] [])\<lparr>fetchHabits_result := Inl (Error ''Failed to fetch'')\<rparr>"

text \<open>
  A time zone two hours ahead of UTC until 2024-10-27T01:00:00Z (1729990800000) and one
  hour ahead from then on, as Europe/Stockholm was around that day: the local clocks go
  from 03:00 (1729998000000 as a local time) back to 02:00. \<open>clocks_set_back\<close> are
  surroundings in that time zone, half an hour before the change.
\<close>

definition autumn_2024 :: "date \<Rightarrow> bool \<Rightarrow> int" where
  "autumn_2024 t isUTC =
     (if isUTC then (if t < 1729990800000 then 7200000 else 3600000)
      else (if t < 1729998000000 then 7200000 else 3600000))"

definition clocks_set_back :: "env \<Rightarrow> env" where
  "clocks_set_back E =
     E\<lparr>now_historyStart := 1729989000000, now_habitsSync := 1729989000000,
       now_completionsSync := 1729989000000, now_validUntil := 1729989000000,
       now_lastSync := 1729989000000, localTZA := autumn_2024\<rparr>"

text \<open>
  A presenter that shows the statistics of A after a sync, the cache holding the data
  of A; and surroundings in which the gateway rejects the fetch of the completions.
\<close>

definition view_of_A :: "(string, nat, nat, string, nat, nat) world" where
  "view_of_A =
     sync example_deps (online [habit_of ''A''] [completion_of ''A''])
       (world_with (Some (cache_of (Some ''A''))))"

definition completions_unreachable :: "env \<Rightarrow> env" where
  "completions_unreachable E =
     E\<lparr>fetchCompletions_result := (\<lambda>since. Inl (Error ''Failed to fetch''))\<rparr>"

text \<open>The schedule in which the two calls are resumed in turn, nine times each.\<close>

definition round_robin :: "turn list" where
  "round_robin = concat (replicate 9 [First, Second])"

section \<open>Properties\<close>

subsection \<open>Running the examples\<close>

text \<open>
  The definitions to unfold for the simplifier to run a sync on the inputs of the
  examples.
\<close>

lemmas example_defs = initialState_def example_deps_def habit_of_def completion_of_def cache_of_def
  world_with_def online_def offline_def autumn_2024_def clocks_set_back_def
  view_of_A_def completions_unreachable_def round_robin_def

lemmas sync_defs = sync_def sync_begin_def sync_resume_def sync_body_def sync_publish_def
  sync_catch_def sync_fresh_def sync_fallback_def computeStatistics_def saveToServerCache_def
  getFetchFromDate_def setDate_getDate_minus_def setHours_getHours_plus_def LocalTime_def UTC_def
  getState_def update_def logged_def spread_computed_def
  and_then_def try_catch_def succeed_def throw_exn_def
  cache_write_def cache_read_def cache_getMetadata_def cache_getHabits_def
  cache_getCompletions_def cache_clearAll_def cache_setHabits_def cache_addCompletions_def
  cache_setMetadata_def api_fetchHabits_def api_fetchCompletions_def api_setServerCache_def
  truthy_def userId_of_def lastHabitsSync_of_def currentUserId_def cacheHasData_def
  cacheHasNoUserId_def userIdMismatch_def suspiciousCache_def
  store_clearAll_def store_setHabits_def store_addCompletions_def store_setMetadata_def same_key_def

lemmas step_defs = sync_step_def sync_start_def issue_def inner_catch_def assign_habits_def
  publish_def



subsection \<open>The stages of sync\<close>

lemmas attempt_defs = and_then_def try_catch_def succeed_def throw_exn_def
lemmas cache_defs = cache_write_def cache_read_def cache_getMetadata_def cache_getHabits_def
  cache_getCompletions_def cache_clearAll_def cache_setHabits_def cache_addCompletions_def
  cache_setMetadata_def
lemmas api_defs = api_fetchHabits_def api_fetchCompletions_def api_setServerCache_def

lemma saveToServerCache_eq:
  "saveToServerCache D E sc d computed w =
     logged (SetServerCache sc (getDateKey D sc d) computed
       (UTC E (LocalTime E (now_validUntil E) + 3600000))) w"
  by (simp add: saveToServerCache_def setHours_getHours_plus_def attempt_defs api_defs
      split: option.splits)

lemma computeStatistics_frame:
  "habits (snd (computeStatistics D sc d w)) = habits w"
  "completions (snd (computeStatistics D sc d w)) = completions w"
  "cache (snd (computeStatistics D sc d w)) = cache w"
  "calls (snd (computeStatistics D sc d w)) = calls w"
  by (simp_all add: computeStatistics_def update_def Let_def)

lemma computeStatistics_flags:
  "scope (state (snd (computeStatistics D sc d w))) = scope (state w)"
  "selectedDate (state (snd (computeStatistics D sc d w))) = selectedDate (state w)"
  "isSyncing (state (snd (computeStatistics D sc d w))) = isSyncing (state w)"
  "isOffline (state (snd (computeStatistics D sc d w))) = isOffline (state w)"
  "error (state (snd (computeStatistics D sc d w))) = error (state w)"
  "lastSync (state (snd (computeStatistics D sc d w))) = lastSync (state w)"
  "isLoading (state (snd (computeStatistics D sc d w))) = False"
  by (simp_all add: computeStatistics_def update_def Let_def spread_computed_def)



lemma sync_publish_succeeds: "fst (sync_publish D E cs w) = Inr ()"
  by (simp add: sync_publish_def Let_def succeed_def)

lemma sync_publish_frame:
  "habits (snd (sync_publish D E cs w)) = habits w"
  "completions (snd (sync_publish D E cs w)) = completions w"
  "cache (snd (sync_publish D E cs w)) = cache w"
  by (simp_all add: sync_publish_def Let_def succeed_def update_def saveToServerCache_eq
      logged_def computeStatistics_frame split: option.splits)

lemma sync_publish_calls:
  "calls (snd (sync_publish D E cs w)) =
     calls w @
     (case fst (computeStatistics D (scope cs) (selectedDate cs) w) of
        None \<Rightarrow> []
      | Some computed \<Rightarrow>
          [SetServerCache (scope cs) (getDateKey D (scope cs) (selectedDate cs)) computed
             (UTC E (LocalTime E (now_validUntil E) + 3600000))])"
  by (simp add: sync_publish_def Let_def succeed_def update_def saveToServerCache_eq
      logged_def computeStatistics_frame split: option.splits)

lemma sync_publish_flags:
  "isSyncing (state (snd (sync_publish D E cs w))) = False"
  "lastSync (state (snd (sync_publish D E cs w))) = Some (now_lastSync E)"
  "error (state (snd (sync_publish D E cs w))) = error (state w)"
  "isOffline (state (snd (sync_publish D E cs w))) = isOffline (state w)"
  "isLoading (state (snd (sync_publish D E cs w))) = False"
  "scope (state (snd (sync_publish D E cs w))) = scope (state w)"
  "selectedDate (state (snd (sync_publish D E cs w))) = selectedDate (state w)"
  by (simp_all add: sync_publish_def Let_def succeed_def update_def saveToServerCache_eq
      logged_def computeStatistics_flags split: option.splits)


lemma sync_fresh_failed_state:
  "sync_fresh E ff m w = (Inl e, w') \<Longrightarrow> state w' = state w"
  by (auto simp: sync_fresh_def attempt_defs cache_defs api_defs logged_def update_def
      split: option.splits sum.splits if_splits prod.splits)

lemma sync_fresh_calls:
  "sync_fresh E ff m w = (r, w') \<Longrightarrow> cache w = Some c \<Longrightarrow> fetchHabits_result E = Inr hs \<Longrightarrow>
   \<exists>rest. calls w' = calls w @ FetchHabits # (if must_clear m hs then [ClearAll] else []) @ rest
      \<and> ClearAll \<notin> set rest"
  by (auto simp: sync_fresh_def attempt_defs cache_defs api_defs logged_def update_def must_clear_def
      split: option.splits sum.splits if_splits prod.splits)

lemma sync_fallback_calls:
  "sync_fallback E m err w = (r, w') \<Longrightarrow>
   \<exists>rest. calls w' = calls w @ rest \<and> set rest \<subseteq> {GetHabits, GetCompletions}"
  by (auto simp: sync_fallback_def attempt_defs cache_defs api_defs logged_def update_def
      split: option.splits sum.splits if_splits prod.splits)


lemma sync_fresh_fetch_fails:
  "fetchHabits_result E = Inl e \<Longrightarrow> sync_fresh E ff m w = (Inl e, logged FetchHabits w)"
  by (simp add: sync_fresh_def and_then_def api_fetchHabits_def)

lemma sync_fresh_ok:
  "sync_fresh E ff m w = (Inr u, w') \<Longrightarrow>
     state w' = (state w)\<lparr>isOffline := False\<rparr> \<and>
     fetchHabits_result E = Inr (habits w') \<and>
     fetchCompletions_result E ff = Inr (completions w')"
  by (auto simp: sync_fresh_def attempt_defs cache_defs api_defs logged_def update_def
      split: option.splits sum.splits if_splits prod.splits)

lemma sync_fresh_ok_cache:
  "sync_fresh E ff m w = (Inr u, w') \<Longrightarrow> cache w = Some c \<Longrightarrow>
     \<exists>c'. cache w' = Some c' \<and>
       cached_metadata c' =
         Some \<lparr>lastHabitsSync = Some (now_habitsSync E),
               lastCompletionsSync = Some (now_completionsSync E),
               version = 1,
               meta_userId = currentUserId (habits w')\<rparr> \<and>
       cached_habits c' = habits w'"
  by (auto simp: sync_fresh_def attempt_defs cache_defs api_defs logged_def update_def
      store_setMetadata_def store_addCompletions_def store_setHabits_def
      split: option.splits sum.splits if_splits prod.splits)

lemma sync_fresh_cache_open:
  "sync_fresh E ff m w = (r, w') \<Longrightarrow> (cache w' = None) = (cache w = None)"
  by (auto simp: sync_fresh_def attempt_defs cache_defs api_defs logged_def update_def
      split: option.splits sum.splits if_splits prod.splits)

lemma sync_fallback_untrusted:
  "\<not> (cache w \<noteq> None \<and> lastHabitsSync_of m \<noteq> None \<and> truthy (userId_of m)) \<Longrightarrow>
   sync_fallback E m err w = (Inl err, w)"
  by (auto simp: sync_fallback_def throw_exn_def)

lemma sync_fallback_failed_state:
  "sync_fallback E m err w = (Inl e, w') \<Longrightarrow> state w' = state w"
  by (auto simp: sync_fallback_def attempt_defs cache_defs logged_def update_def
      split: option.splits sum.splits if_splits prod.splits)

lemma sync_fallback_ok:
  "sync_fallback E m err w = (Inr u, w') \<Longrightarrow>
     state w' = (state w)\<lparr>isOffline := True\<rparr> \<and>
     lastHabitsSync_of m \<noteq> None \<and> truthy (userId_of m) \<and>
     getHabits_fails E = None \<and> getCompletions_fails E = None \<and>
     (\<exists>c. cache w = Some c \<and> habits w' = cached_habits c \<and> completions w' = cached_completions c
        \<and> cache w' = Some c) \<and>
     calls w' = calls w @ [GetHabits, GetCompletions]"
  by (auto simp: sync_fallback_def attempt_defs cache_defs logged_def update_def
      split: option.splits sum.splits if_splits prod.splits)

lemma sync_fallback_trusted:
  "cache w = Some c \<Longrightarrow> lastHabitsSync_of m \<noteq> None \<Longrightarrow> truthy (userId_of m) \<Longrightarrow>
   getHabits_fails E = None \<Longrightarrow> getCompletions_fails E = None \<Longrightarrow>
   sync_fallback E m err w =
     (Inr (), update (\<lambda>s. s\<lparr>isOffline := True\<rparr>)
        (logged GetCompletions (logged GetHabits w\<lparr>habits := cached_habits c\<rparr>)
           \<lparr>completions := cached_completions c\<rparr>))"
  by (simp add: sync_fallback_def attempt_defs cache_defs logged_def update_def)

lemma sync_begin_world:
  "snd (sync_begin D E w) = update (\<lambda>s. s\<lparr>isSyncing := True, error := None\<rparr>) w"
  "fst (fst (sync_begin D E w)) = (state w)\<lparr>isSyncing := True, error := None\<rparr>"
  by (simp_all add: sync_begin_def Let_def getState_def update_def)

lemma sync_resume_cases:
  fixes D :: "('t, 'c, 'i, 'a, 'b, 'p) deps" and E cs ff w1
  obtains
    (no_metadata) c e where
      "cache w1 = Some c" "getMetadata_fails E = Some e"
      "sync_resume D E (cs, ff) w1 = sync_catch (logged GetMetadata w1)"
  | (fresh) w2 w3 where
      "cache w1 = None \<and> w2 = w1 \<or> cache w1 \<noteq> None \<and> getMetadata_fails E = None \<and> w2 = logged GetMetadata w1"
      "sync_fresh E ff (metadata_read w1) w2 = (Inr (), w3)"
      "sync_resume D E (cs, ff) w1 = snd (sync_publish D E cs w3)"
  | (fallback) w2 w3 w4 e where
      "cache w1 = None \<and> w2 = w1 \<or> cache w1 \<noteq> None \<and> getMetadata_fails E = None \<and> w2 = logged GetMetadata w1"
      "sync_fresh E ff (metadata_read w1) w2 = (Inl e, w3)"
      "sync_fallback E (metadata_read w1) e w3 = (Inr (), w4)"
      "sync_resume D E (cs, ff) w1 = snd (sync_publish D E cs w4)"
  | (failed) w2 w3 w4 e e' where
      "cache w1 = None \<and> w2 = w1 \<or> cache w1 \<noteq> None \<and> getMetadata_fails E = None \<and> w2 = logged GetMetadata w1"
      "sync_fresh E ff (metadata_read w1) w2 = (Inl e, w3)"
      "sync_fallback E (metadata_read w1) e w3 = (Inl e', w4)"
      "sync_resume D E (cs, ff) w1 = sync_catch w4"
proof (cases "cache w1 \<noteq> None \<and> getMetadata_fails E \<noteq> None")
  case True
  then obtain c e where ce: "cache w1 = Some c" "getMetadata_fails E = Some e" by auto
  have "sync_body D E cs ff w1 = (Inl e, logged GetMetadata w1)"
    using ce by (simp add: sync_body_def and_then_def cache_getMetadata_def cache_read_def)
  then have "sync_resume D E (cs, ff) w1 = sync_catch (logged GetMetadata w1)"
    by (simp add: sync_resume_def)
  with ce show ?thesis by (rule no_metadata)
next
  case False
  define w2 where "w2 = (if cache w1 = None then w1 else logged GetMetadata w1)"
  have w2: "cache w1 = None \<and> w2 = w1 \<or>
      cache w1 \<noteq> None \<and> getMetadata_fails E = None \<and> w2 = logged GetMetadata w1"
    using False by (auto simp: w2_def)
  have m: "(if cache w1 \<noteq> None then cache_getMetadata E w1 else succeed None w1) =
      (Inr (metadata_read w1), w2)"
    using False
    by (auto simp: w2_def metadata_read_def cache_getMetadata_def cache_read_def succeed_def)
  have body: "sync_body D E cs ff w1 =
      and_then (try_catch (sync_fresh E ff (metadata_read w1)) (sync_fallback E (metadata_read w1)))
        (\<lambda>_. sync_publish D E cs) w2"
    using m by (simp add: sync_body_def and_then_def)
  obtain r w3 where f: "sync_fresh E ff (metadata_read w1) w2 = (r, w3)"
    by (cases "sync_fresh E ff (metadata_read w1) w2")
  show ?thesis
  proof (cases r)
    case (Inr u)
    have "sync_body D E cs ff w1 = sync_publish D E cs w3"
      using f Inr by (simp add: body and_then_def try_catch_def)
    moreover obtain w5 where "sync_publish D E cs w3 = (Inr (), w5)"
      using sync_publish_succeeds[of D E cs w3] by (cases "sync_publish D E cs w3") auto
    ultimately have "sync_resume D E (cs, ff) w1 = snd (sync_publish D E cs w3)"
      by (simp add: sync_resume_def)
    with w2 f Inr show ?thesis by (auto intro: fresh)
  next
    case (Inl e)
    obtain r' w4 where fb: "sync_fallback E (metadata_read w1) e w3 = (r', w4)"
      by (cases "sync_fallback E (metadata_read w1) e w3")
    show ?thesis
    proof (cases r')
      case (Inr u)
      have "sync_body D E cs ff w1 = sync_publish D E cs w4"
        using f Inl fb Inr by (simp add: body and_then_def try_catch_def)
      moreover obtain w5 where "sync_publish D E cs w4 = (Inr (), w5)"
        using sync_publish_succeeds[of D E cs w4] by (cases "sync_publish D E cs w4") auto
      ultimately have "sync_resume D E (cs, ff) w1 = snd (sync_publish D E cs w4)"
        by (simp add: sync_resume_def)
      with w2 f Inl fb Inr show ?thesis by (auto intro: fallback)
    next
      case (Inl e')
      have "sync_body D E cs ff w1 = (Inl e', w4)"
        using f \<open>r = Inl e\<close> fb Inl by (simp add: body and_then_def try_catch_def)
      then have "sync_resume D E (cs, ff) w1 = sync_catch w4"
        by (simp add: sync_resume_def)
      with w2 f \<open>r = Inl e\<close> fb Inl show ?thesis by (auto intro: failed)
    qed
  qed
qed

lemma sync_eq:
  "sync D E w =
     sync_resume D E
       ((state w)\<lparr>isSyncing := True, error := None\<rparr>,
        getFetchFromDate D E (getHeatmapRange D (scope (state w)) (selectedDate (state w))))
       (update (\<lambda>s. s\<lparr>isSyncing := True, error := None\<rparr>) w)"
  by (simp add: sync_def sync_begin_def Let_def getState_def update_def)

lemma update_frame:
  "habits (update f w) = habits w" "completions (update f w) = completions w"
  "cache (update f w) = cache w" "calls (update f w) = calls w"
  "state (update f w) = f (state w)" "metadata_read (update f w) = metadata_read w"
  by (simp_all add: update_def metadata_read_def)

lemma logged_frame:
  "habits (logged ev w) = habits w" "completions (logged ev w) = completions w"
  "cache (logged ev w) = cache w" "calls (logged ev w) = calls w @ [ev]"
  "state (logged ev w) = state w" "metadata_read (logged ev w) = metadata_read w"
  by (simp_all add: logged_def metadata_read_def)

lemma sync_catch_frame:
  "habits (sync_catch w) = habits w" "completions (sync_catch w) = completions w"
  "cache (sync_catch w) = cache w" "calls (sync_catch w) = calls w"
  by (simp_all add: sync_catch_def update_frame)

lemma sync_resume_calls_fetched:
  assumes "cache w = Some c" and "getMetadata_fails E = None" and "fetchHabits_result E = Inr hs"
  shows "\<exists>rest. calls (sync_resume D E (cs, ff) w) =
            calls w @ GetMetadata # FetchHabits #
              (if must_clear (cached_metadata c) hs then [ClearAll] else []) @ rest
          \<and> ClearAll \<notin> set rest"
proof -
  have mr: "metadata_read w = cached_metadata c"
    using assms(1) by (simp add: metadata_read_def)
  have pub: "\<And>w'. \<exists>xs. calls (snd (sync_publish D E cs w')) = calls w' @ xs \<and> ClearAll \<notin> set xs"
    by (simp add: sync_publish_calls split: option.splits)
  show ?thesis
  proof (cases rule: sync_resume_cases[of w E D cs ff])
    case (no_metadata c e)
    then show ?thesis using assms by simp
  next
    case (fresh w2 w3)
    then have w2: "w2 = logged GetMetadata w" using assms by auto
    from sync_fresh_calls[OF fresh(2), of c hs] assms w2
    obtain rest where r: "calls w3 = calls w2 @ FetchHabits #
        (if must_clear (cached_metadata c) hs then [ClearAll] else []) @ rest" "ClearAll \<notin> set rest"
      by (auto simp: logged_frame mr)
    from pub[of w3] obtain xs where
      xs: "calls (snd (sync_publish D E cs w3)) = calls w3 @ xs" "ClearAll \<notin> set xs" by blast
    show ?thesis
      using r xs fresh(3) w2 by (simp add: logged_frame)
  next
    case (fallback w2 w3 w4 e)
    then have w2: "w2 = logged GetMetadata w" using assms by auto
    from sync_fresh_calls[OF fallback(2), of c hs] assms w2
    obtain rest where r: "calls w3 = calls w2 @ FetchHabits #
        (if must_clear (cached_metadata c) hs then [ClearAll] else []) @ rest" "ClearAll \<notin> set rest"
      by (auto simp: logged_frame mr)
    from sync_fallback_calls[OF fallback(3)] obtain ys where
      ys: "calls w4 = calls w3 @ ys" "set ys \<subseteq> {GetHabits, GetCompletions}" by blast
    then have ys': "ClearAll \<notin> set ys" by auto
    from pub[of w4] obtain xs where
      xs: "calls (snd (sync_publish D E cs w4)) = calls w4 @ xs" "ClearAll \<notin> set xs" by blast
    show ?thesis
      using r ys(1) ys' xs fallback(4) w2 by (simp add: logged_frame)
  next
    case (failed w2 w3 w4 e e')
    then have w2: "w2 = logged GetMetadata w" using assms by auto
    from sync_fresh_calls[OF failed(2), of c hs] assms w2
    obtain rest where r: "calls w3 = calls w2 @ FetchHabits #
        (if must_clear (cached_metadata c) hs then [ClearAll] else []) @ rest" "ClearAll \<notin> set rest"
      by (auto simp: logged_frame mr)
    from sync_fallback_calls[OF failed(3)] obtain ys where
      ys: "calls w4 = calls w3 @ ys" "set ys \<subseteq> {GetHabits, GetCompletions}" by blast
    then have ys': "ClearAll \<notin> set ys" by auto
    show ?thesis
      using r ys(1) ys' failed(4) w2 by (simp add: logged_frame sync_catch_frame)
  qed
qed

lemma sync_calls_fetched:
  fixes D :: "('t, 'c, 'i, 'a, 'b, 'p) deps"
  assumes "cache w = Some c" and "getMetadata_fails E = None" and "fetchHabits_result E = Inr hs"
  shows "\<exists>rest. new_calls w (sync D E w) =
            GetMetadata # FetchHabits #
              (if must_clear (cached_metadata c) hs then [ClearAll] else []) @ rest
          \<and> ClearAll \<notin> set rest"
proof -
  let ?cs = "(state w)\<lparr>isSyncing := True, error := None\<rparr>"
  let ?ff = "getFetchFromDate D E (getHeatmapRange D (scope (state w)) (selectedDate (state w)))"
  let ?w1 = "update (\<lambda>s. s\<lparr>isSyncing := True, error := None\<rparr>) w"
  have "cache ?w1 = Some c" using assms(1) by (simp add: update_frame)
  from sync_resume_calls_fetched[OF this assms(2,3), of D ?cs ?ff] obtain rest where
    r: "calls (sync_resume D E (?cs, ?ff) ?w1) =
          calls ?w1 @ GetMetadata # FetchHabits #
            (if must_clear (cached_metadata c) hs then [ClearAll] else []) @ rest"
       "ClearAll \<notin> set rest"
    by (elim exE conjE) (rule that)
  have "new_calls w (sync D E w) =
      GetMetadata # FetchHabits # (if must_clear (cached_metadata c) hs then [ClearAll] else []) @ rest"
    unfolding sync_eq new_calls_def r(1) by (simp add: update_frame)
  with r(2) show ?thesis by (intro exI[of _ rest] conjI)
qed

subsection \<open>When the cache is cleared\<close>

text \<open>
  Claim C1, as the code has it. Let a sync run with the cache open, let the metadata be
  read and let \<^verbatim>\<open>fetchHabits\<close> succeed with the habits \<open>hs\<close>. Then \<^verbatim>\<open>clearAll\<close> is
  called if and only if the metadata records a habit sync but no owning user, or the
  metadata's owning user and the one derived from \<open>hs\<close> are both there and differ, or no
  owning user is derived from \<open>hs\<close> while the metadata records a habit sync. An owning
  user is there when it is a non-empty string (JavaScript's truthiness), and the one
  derived from \<open>hs\<close> is the \<^verbatim>\<open>userId\<close> of the first habit: it is missing when \<open>hs\<close> is
  empty and also when that \<^verbatim>\<open>userId\<close> is the empty string. Whenever \<^verbatim>\<open>clearAll\<close> is
  called, it is called before the first call that writes data into the Local Store.
\<close>

theorem cache_cleared_iff_untrusted:
  assumes "cache w = Some c" and "getMetadata_fails E = None" and "fetchHabits_result E = Inr hs"
  shows "(ClearAll \<in> set (new_calls w (sync D E w))) =
           (lastHabitsSync_of (cached_metadata c) \<noteq> None \<and> \<not> truthy (userId_of (cached_metadata c)) \<or>
            truthy (userId_of (cached_metadata c)) \<and> truthy (currentUserId hs) \<and>
              userId_of (cached_metadata c) \<noteq> currentUserId hs \<or>
            \<not> truthy (currentUserId hs) \<and> lastHabitsSync_of (cached_metadata c) \<noteq> None)
         \<and> clearAll_before_writing (new_calls w (sync D E w)) =
             (ClearAll \<in> set (new_calls w (sync D E w)))"
proof -
  from sync_calls_fetched[OF assms, of D] obtain rest where
    n: "new_calls w (sync D E w) = GetMetadata # FetchHabits #
          (if must_clear (cached_metadata c) hs then [ClearAll] else []) @ rest"
    and r: "ClearAll \<notin> set rest"
    by (elim exE conjE) (rule that)
  have "ClearAll \<notin> set (takeWhile (\<lambda>ev. \<not> is_write ev) rest)"
    using r by (auto dest: set_takeWhileD)
  then show ?thesis
    using r
    by (auto simp: n clearAll_before_writing_def must_clear_def cacheHasNoUserId_def
        userIdMismatch_def suspiciousCache_def cacheHasData_def)
qed

text \<open>
  The scenario of the spec: the cache holds the data of user A, the fetch reports a habit
  of user B. The cache is cleared before anything is written, and no completion of A
  is left in it.
\<close>

theorem cache_cleared_iff_untrusted_witness:
  "cache (world_with (Some (cache_of (Some ''A'')))) = Some (cache_of (Some ''A'')) \<and>
   fetchHabits_result (online [habit_of ''B''] [completion_of ''B'']) = Inr [habit_of ''B''] \<and>
   userId_of (cached_metadata (cache_of (Some ''A''))) = Some ''A'' \<and>
   currentUserId [habit_of ''B''] = Some ''B'' \<and>
   ClearAll \<in> set (new_calls (world_with (Some (cache_of (Some ''A''))))
      (sync example_deps (online [habit_of ''B''] [completion_of ''B''])
         (world_with (Some (cache_of (Some ''A'')))))) \<and>
   clearAll_before_writing (new_calls (world_with (Some (cache_of (Some ''A''))))
      (sync example_deps (online [habit_of ''B''] [completion_of ''B''])
         (world_with (Some (cache_of (Some ''A'')))))) \<and>
   map_option cached_completions
     (cache (sync example_deps (online [habit_of ''B''] [completion_of ''B''])
         (world_with (Some (cache_of (Some ''A'')))))) = Some [completion_of ''B'']"
proof -
  have c: "cache (world_with (Some (cache_of (Some ''A'')))) = Some (cache_of (Some ''A''))"
    by (simp add: world_with_def)
  have m: "getMetadata_fails (online [habit_of ''B''] [completion_of ''B'']) = None"
    by (simp add: online_def)
  have f: "fetchHabits_result (online [habit_of ''B''] [completion_of ''B'']) = Inr [habit_of ''B'']"
    by (simp add: online_def)
  have u: "userId_of (cached_metadata (cache_of (Some ''A''))) = Some ''A''"
      "lastHabitsSync_of (cached_metadata (cache_of (Some ''A''))) = Some 1000"
      "currentUserId [habit_of ''B''] = Some ''B''"
    by (simp_all add: userId_of_def lastHabitsSync_of_def cache_of_def currentUserId_def habit_of_def)
  have s: "map_option cached_completions
     (cache (sync example_deps (online [habit_of ''B''] [completion_of ''B''])
         (world_with (Some (cache_of (Some ''A'')))))) = Some [completion_of ''B'']"
    by (simp add: sync_defs example_defs Let_def)
  show ?thesis
    using cache_cleared_iff_untrusted[OF c m f, of example_deps] c f u s
    by (simp add: truthy_def)
qed

text \<open>
  The claim as the spec words it has, for its third case, "the fetched habit list is
  empty". In the first run below the fetch reports one habit, whose \<^verbatim>\<open>userId\<close> is the
  empty string, to a cache owned by A: the metadata carries an owning user, the fetched
  habits give none to differ from it, the fetched list is not empty, and yet the cache
  is cleared. (Should the empty string count as an identifier that is present, the
  second run decides: there the metadata's \<^verbatim>\<open>userId\<close> is the empty string too, so that
  the two identifiers are equal and the list is not empty, and the cache is cleared.)
\<close>

theorem cache_cleared_for_empty_userId_counterexample:
  "cache (world_with (Some (cache_of (Some ''A'')))) = Some (cache_of (Some ''A'')) \<and>
   getMetadata_fails (online [habit_of ''''] []) = None \<and>
   fetchHabits_result (online [habit_of ''''] []) = Inr [habit_of ''''] \<and>
   ClearAll \<in> set (new_calls (world_with (Some (cache_of (Some ''A''))))
      (sync example_deps (online [habit_of ''''] []) (world_with (Some (cache_of (Some ''A'')))))) \<and>
   \<not> (lastHabitsSync_of (cached_metadata (cache_of (Some ''A''))) \<noteq> None \<and>
        \<not> truthy (userId_of (cached_metadata (cache_of (Some ''A''))))) \<and>
   \<not> (truthy (userId_of (cached_metadata (cache_of (Some ''A'')))) \<and>
        truthy (currentUserId [habit_of '''']) \<and>
        userId_of (cached_metadata (cache_of (Some ''A''))) \<noteq> currentUserId [habit_of '''']) \<and>
   \<not> ([habit_of ''''] = [] \<and> lastHabitsSync_of (cached_metadata (cache_of (Some ''A''))) \<noteq> None) \<and>
   ClearAll \<in> set (new_calls (world_with (Some (cache_of (Some ''''))))
      (sync example_deps (online [habit_of ''''] []) (world_with (Some (cache_of (Some '''')))))) \<and>
   userId_of (cached_metadata (cache_of (Some ''''))) = Some '''' \<and>
   currentUserId [habit_of ''''] = userId_of (cached_metadata (cache_of (Some '''')))"
  by (simp add: sync_defs example_defs Let_def new_calls_def)

subsection \<open>How a sync ends\<close>

lemma sync_resume_outcome:
  fixes D :: "('t, 'c, 'i, 'a, 'b, 'p) deps"
  obtains
    (completed)
      "error (state (sync_resume D E (cs, ff) w)) = error (state w)"
      "isSyncing (state (sync_resume D E (cs, ff) w)) = False"
      "lastSync (state (sync_resume D E (cs, ff) w)) = Some (now_lastSync E)"
  | (failed)
      "state (sync_resume D E (cs, ff) w) =
         (state w)\<lparr>isLoading := False, isSyncing := False,
                    error := Some ''Failed to load statistics. Please try again.''\<rparr>"
proof (cases rule: sync_resume_cases[of w E D cs ff])
  case (no_metadata c e)
  then have "state (sync_resume D E (cs, ff) w) =
         (state w)\<lparr>isLoading := False, isSyncing := False,
                    error := Some ''Failed to load statistics. Please try again.''\<rparr>"
    by (simp add: sync_catch_def update_frame logged_frame)
  then show ?thesis by (rule failed)
next
  case (fresh w2 w3)
  have "state w2 = state w" using fresh(1) by (auto simp: logged_frame)
  then have "error (state w3) = error (state w)"
    using sync_fresh_ok[OF fresh(2)] by simp
  then show ?thesis
    using fresh(3) by (intro completed) (simp_all add: sync_publish_flags)
next
  case (fallback w2 w3 w4 e)
  have "state w2 = state w" using fallback(1) by (auto simp: logged_frame)
  then have "error (state w4) = error (state w)"
    using sync_fresh_failed_state[OF fallback(2)] sync_fallback_ok[OF fallback(3)] by simp
  then show ?thesis
    using fallback(4) by (intro completed) (simp_all add: sync_publish_flags)
next
  case (failed w2 w3 w4 e e')
  have "state w2 = state w" using failed(1) by (auto simp: logged_frame)
  then have "state w4 = state w"
    using sync_fresh_failed_state[OF failed(2)] sync_fallback_failed_state[OF failed(3)] by simp
  then have "state (sync_resume D E (cs, ff) w) =
         (state w)\<lparr>isLoading := False, isSyncing := False,
                    error := Some ''Failed to load statistics. Please try again.''\<rparr>"
    using failed(4) by (simp add: sync_catch_def update_frame)
  then show ?thesis by (rule that(2))
qed

lemma sync_outcome:
  fixes D :: "('t, 'c, 'i, 'a, 'b, 'p) deps"
  obtains
    (completed)
      "error (state (sync D E w)) = None"
      "isSyncing (state (sync D E w)) = False"
      "lastSync (state (sync D E w)) = Some (now_lastSync E)"
  | (failed)
      "state (sync D E w) =
         (state w)\<lparr>isLoading := False, isSyncing := False,
                    error := Some ''Failed to load statistics. Please try again.''\<rparr>"
proof (cases rule: sync_resume_outcome[of D E "(state w)\<lparr>isSyncing := True, error := None\<rparr>"
      "getFetchFromDate D E (getHeatmapRange D (scope (state w)) (selectedDate (state w)))"
      "update (\<lambda>s. s\<lparr>isSyncing := True, error := None\<rparr>) w"])
  case completed
  then show ?thesis
    by (intro that(1)) (simp_all add: sync_eq update_frame)
next
  case failed
  then show ?thesis
    by (intro that(2)) (simp add: sync_eq update_frame)
qed

text \<open>
  Claim C4, as the code has it. Every sync ends with \<^verbatim>\<open>isSyncing = false\<close>. When it ends
  without an error (after a fresh fetch or after the fallback on the cache),
  \<^verbatim>\<open>lastSync\<close> is the clock's reading at the end; when it ends in the outer \<^verbatim>\<open>catch\<close>,
  with the error message, \<^verbatim>\<open>lastSync\<close> keeps the value it had before the sync.
\<close>

theorem sync_ends_not_syncing:
  "isSyncing (state (sync D E w)) = False \<and>
   lastSync (state (sync D E w)) =
     (if error (state (sync D E w)) = None then Some (now_lastSync E) else lastSync (state w))"
  by (cases rule: sync_outcome[of D E w]) simp_all

theorem sync_ends_not_syncing_witness:
  "isSyncing (state (sync example_deps (online [habit_of ''A''] []) (world_with None))) = False \<and>
   error (state (sync example_deps (online [habit_of ''A''] []) (world_with None))) = None \<and>
   lastSync (state (sync example_deps (online [habit_of ''A''] []) (world_with None))) =
     Some 9000000004"
proof -
  have "error (state (sync example_deps (online [habit_of ''A''] []) (world_with None))) = None"
    by (simp add: sync_defs example_defs Let_def)
  then show ?thesis
    using sync_ends_not_syncing[of example_deps "online [habit_of ''A''] []" "world_with None"]
    by (simp add: online_def)
qed

text \<open>
  The claim as the spec words it sets \<^verbatim>\<open>lastSync\<close> whatever the outcome. A presenter
  without a cache whose fetch fails ends in the outer \<^verbatim>\<open>catch\<close>, and its \<^verbatim>\<open>lastSync\<close>
  is still \<^verbatim>\<open>null\<close>.
\<close>

theorem lastSync_not_set_on_failure_counterexample:
  "isSyncing (state (sync example_deps offline (world_with None))) = False \<and>
   lastSync (state (sync example_deps offline (world_with None))) = None \<and>
   lastSync (state (sync example_deps offline (world_with None))) \<noteq> Some (now_lastSync offline)"
  by (simp add: sync_defs example_defs Let_def)

subsection \<open>A failed sync and the last view\<close>

text \<open>
  A sync that ends in the outer \<^verbatim>\<open>catch\<close> has set the user-facing message
  \<^verbatim>\<open>'Failed to load statistics. Please try again.'\<close> and has left the six statistics
  fields of the published state (\<^verbatim>\<open>periodStats\<close>, \<^verbatim>\<open>trends\<close>, \<^verbatim>\<open>heatmap\<close>, \<^verbatim>\<open>snapshot\<close>,
  \<^verbatim>\<open>insights\<close>, \<^verbatim>\<open>activity\<close>) as they were before it.
\<close>

lemma outer_catch_keeps_statistics:
  assumes "error (state (sync D E w)) \<noteq> None"
  shows "error (state (sync D E w)) = Some ''Failed to load statistics. Please try again.'' \<and>
         periodStats (state (sync D E w)) = periodStats (state w) \<and>
         trends (state (sync D E w)) = trends (state w) \<and>
         heatmap (state (sync D E w)) = heatmap (state w) \<and>
         snapshot (state (sync D E w)) = snapshot (state w) \<and>
         insights (state (sync D E w)) = insights (state w) \<and>
         activity (state (sync D E w)) = activity (state w)"
  using assms by (cases rule: sync_outcome[of D E w]) simp_all

text \<open>
  Claim C5, at an input where the code departs from it. Not every sync that fails
  without a usable data source ends in the outer \<^verbatim>\<open>catch\<close>. The presenter shows the
  statistics of A, whose data the cache holds (\<open>view_of_A\<close>). At the next sync the
  gateway gives the habits of B and then rejects the fetch of the completions
  (\<open>completions_unreachable\<close>). The sync reads the metadata (owned by A), fetches the
  habits, clears the cache since the owners differ, and fails to fetch the completions.
  The inner \<^verbatim>\<open>catch\<close> then tests the metadata read before the cache was cleared, finds a
  timestamp and an owner in it, and reads the habits and completions of the cache it has
  just emptied. There is no data source left, yet no error is published: the sync ends
  offline, without error, with no habits, and the six statistics fields blanked.
\<close>

theorem stale_metadata_blanks_view:
  "cached_habits (the (cache view_of_A)) = [habit_of ''A''] \<and>
   userId_of (metadata_read view_of_A) = Some ''A'' \<and>
   error (state view_of_A) = None \<and>
   trends (state view_of_A) = [''h-A''] \<and>
   heatmap (state view_of_A) = [1] \<and>
   periodStats (state view_of_A) \<noteq> None \<and>
   fetchHabits_result (completions_unreachable (online [habit_of ''B''] [])) =
     Inr [habit_of ''B''] \<and>
   fetchCompletions_result (completions_unreachable (online [habit_of ''B''] [])) 1224000000 =
     Inl (Error ''Failed to fetch'') \<and>
   new_calls view_of_A
     (sync example_deps (completions_unreachable (online [habit_of ''B''] [])) view_of_A) =
     [GetMetadata, FetchHabits, ClearAll, FetchCompletions 1224000000, GetHabits,
      GetCompletions] \<and>
   error (state
     (sync example_deps (completions_unreachable (online [habit_of ''B''] [])) view_of_A)) =
     None \<and>
   isOffline (state
     (sync example_deps (completions_unreachable (online [habit_of ''B''] [])) view_of_A)) \<and>
   habits (sync example_deps (completions_unreachable (online [habit_of ''B''] [])) view_of_A) =
     [] \<and>
   stats_of (state
     (sync example_deps (completions_unreachable (online [habit_of ''B''] [])) view_of_A)) =
     no_statistics"
  by (simp add: sync_defs example_defs Let_def new_calls_def stats_of_def no_statistics_def
      metadata_read_def)

subsection \<open>The fallback on the cache\<close>

lemma sync_fallback_trusted_calls:
  "sync_fallback E m err w = (r, w') \<Longrightarrow> cache w \<noteq> None \<Longrightarrow> lastHabitsSync_of m \<noteq> None \<Longrightarrow>
   truthy (userId_of m) \<Longrightarrow> \<exists>rest. calls w' = calls w @ GetHabits # rest"
  by (auto simp: sync_fallback_def attempt_defs cache_defs logged_def update_def
      split: option.splits sum.splits if_splits prod.splits)

lemma sync_resume_fetch_fails:
  fixes D :: "('t, 'c, 'i, 'a, 'b, 'p) deps"
  assumes "fetchHabits_result E = Inl e" and "getMetadata_fails E = None"
  obtains
    (served) c rest where
      "trusted w" "getHabits_fails E = None" "getCompletions_fails E = None"
      "cache w = Some c"
      "habits (sync_resume D E (cs, ff) w) = cached_habits c"
      "completions (sync_resume D E (cs, ff) w) = cached_completions c"
      "isOffline (state (sync_resume D E (cs, ff) w))"
      "error (state (sync_resume D E (cs, ff) w)) = error (state w)"
      "calls (sync_resume D E (cs, ff) w) = calls w @ GetMetadata # FetchHabits # GetHabits # rest"
  | (unreadable) rest where
      "trusted w" "getHabits_fails E \<noteq> None \<or> getCompletions_fails E \<noteq> None"
      "state (sync_resume D E (cs, ff) w) = state (sync_catch w)"
      "calls (sync_resume D E (cs, ff) w) = calls w @ GetMetadata # FetchHabits # GetHabits # rest"
  | (propagated)
      "\<not> trusted w"
      "sync_resume D E (cs, ff) w =
         sync_catch (w\<lparr>calls := calls w @ (if cache w = None then [] else [GetMetadata]) @ [FetchHabits]\<rparr>)"
proof (cases rule: sync_resume_cases[of w E D cs ff])
  case (no_metadata c e)
  then show ?thesis using assms by simp
next
  case (fresh w2 w3)
  then show ?thesis
    using sync_fresh_fetch_fails[OF assms(1), of ff "metadata_read w" w2] by simp
next
  case (fallback w2 w3 w4 e')
  have w3: "w3 = logged FetchHabits w2" "e' = e"
    using fallback(2) sync_fresh_fetch_fails[OF assms(1), of ff "metadata_read w" w2] by simp_all
  from sync_fallback_ok[OF fallback(3)] obtain c where
    ok: "state w4 = (state w3)\<lparr>isOffline := True\<rparr>"
      "lastHabitsSync_of (metadata_read w) \<noteq> None" "truthy (userId_of (metadata_read w))"
      "getHabits_fails E = None" "getCompletions_fails E = None"
      "cache w3 = Some c" "habits w4 = cached_habits c" "completions w4 = cached_completions c"
      "calls w4 = calls w3 @ [GetHabits, GetCompletions]"
    by blast
  have c: "cache w = Some c" "w2 = logged GetMetadata w"
    using ok(6) w3 fallback(1) by (auto simp: logged_frame)
  have t: "trusted w" using ok(2,3) c by (simp add: trusted_def)
  have "calls (sync_resume D E (cs, ff) w) =
      calls w @ GetMetadata # FetchHabits # GetHabits #
        (GetCompletions # drop (length (calls w4)) (calls (snd (sync_publish D E cs w4))))"
    using fallback(4) ok(9) w3 c by (simp add: sync_publish_calls logged_frame)
  moreover have "error (state (sync_resume D E (cs, ff) w)) = error (state w)"
    "isOffline (state (sync_resume D E (cs, ff) w))"
    using fallback(4) ok(1) w3 c by (simp_all add: sync_publish_flags logged_frame)
  ultimately show ?thesis
    using t ok(4,5,7,8) c(1) fallback(4) by (intro served) (simp_all add: sync_publish_frame)
next
  case (failed w2 w3 w4 e' e'')
  have w3: "w3 = logged FetchHabits w2" "e' = e"
    using failed(2) sync_fresh_fetch_fails[OF assms(1), of ff "metadata_read w" w2] by simp_all
  have w2: "w2 = (if cache w = None then w else logged GetMetadata w)"
    using failed(1) by auto
  have c3: "cache w3 = cache w" using w3 w2 by (simp add: logged_frame)
  show ?thesis
  proof (cases "trusted w")
    case True
    then have tr: "cache w3 \<noteq> None" "lastHabitsSync_of (metadata_read w) \<noteq> None"
        "truthy (userId_of (metadata_read w))"
      using c3 by (simp_all add: trusted_def)
    from sync_fallback_trusted_calls[OF failed(3) tr] obtain rest where
      "calls w4 = calls w3 @ GetHabits # rest" by blast
    then have "calls (sync_resume D E (cs, ff) w) =
        calls w @ GetMetadata # FetchHabits # GetHabits # rest"
      using failed(4) w3 w2 True by (simp add: sync_catch_frame logged_frame trusted_def)
    moreover have "getHabits_fails E \<noteq> None \<or> getCompletions_fails E \<noteq> None"
    proof (rule ccontr)
      assume "\<not> ?thesis"
      then have "getHabits_fails E = None" "getCompletions_fails E = None" by simp_all
      with tr obtain c where "cache w3 = Some c" by auto
      from sync_fallback_trusted[OF this tr(2,3) \<open>getHabits_fails E = None\<close>
          \<open>getCompletions_fails E = None\<close>, of e'] failed(3)
      show False by simp
    qed
    moreover have "state w4 = state w"
      using sync_fallback_failed_state[OF failed(3)] w3 w2 by (simp add: logged_frame)
    then have "state (sync_resume D E (cs, ff) w) = state (sync_catch w)"
      using failed(4) by (simp add: sync_catch_def update_frame)
    ultimately show ?thesis using True by (intro unreadable)
  next
    case False
    then have "\<not> (cache w3 \<noteq> None \<and> lastHabitsSync_of (metadata_read w) \<noteq> None \<and>
        truthy (userId_of (metadata_read w)))"
      using c3 by (simp add: trusted_def)
    from sync_fallback_untrusted[OF this, of E e'] failed(3)
    have "w4 = w3" by simp
    then have "sync_resume D E (cs, ff) w =
        sync_catch (w\<lparr>calls := calls w @ (if cache w = None then [] else [GetMetadata]) @ [FetchHabits]\<rparr>)"
      using failed(4) w3 w2 by (simp add: logged_def)
    with False show ?thesis by (intro propagated)
  qed
qed

lemma trusted_update: "trusted (update f w) = trusted w"
  by (simp add: trusted_def update_frame)

text \<open>
  Claim C2, as the code has it. Let the metadata be read and let \<^verbatim>\<open>fetchHabits\<close> fail.
  The engine turns to the cached habits exactly when the cache is open and its metadata
  carries a habit-sync timestamp and a (non-empty) owning user. In that case, if the two
  reads \<^verbatim>\<open>getHabits\<close> and \<^verbatim>\<open>getCompletions\<close> succeed, the cached habits and completions
  are the ones in memory, \<^verbatim>\<open>isOffline\<close> is true and there is no error. Otherwise the
  failure propagates: the error message is set, the only calls made are the read of the
  metadata and the failed fetch, and the habits and completions in memory and
  \<^verbatim>\<open>isOffline\<close> are as before.
\<close>

theorem fallback_only_when_trusted:
  assumes "fetchHabits_result E = Inl e" and "getMetadata_fails E = None"
  shows "(GetHabits \<in> set (new_calls w (sync D E w))) = trusted w \<and>
         (trusted w \<and> getHabits_fails E = None \<and> getCompletions_fails E = None \<longrightarrow>
            isOffline (state (sync D E w)) \<and> error (state (sync D E w)) = None \<and>
            Some (habits (sync D E w)) = map_option cached_habits (cache w) \<and>
            Some (completions (sync D E w)) = map_option cached_completions (cache w)) \<and>
         (\<not> trusted w \<longrightarrow>
            error (state (sync D E w)) = Some ''Failed to load statistics. Please try again.'' \<and>
            new_calls w (sync D E w) = (if cache w = None then [] else [GetMetadata]) @ [FetchHabits] \<and>
            habits (sync D E w) = habits w \<and> completions (sync D E w) = completions w \<and>
            isOffline (state (sync D E w)) = isOffline (state w))"
  using assms
proof (cases rule: sync_resume_fetch_fails[of E e "update (\<lambda>s. s\<lparr>isSyncing := True, error := None\<rparr>) w"
      D "(state w)\<lparr>isSyncing := True, error := None\<rparr>"
      "getFetchFromDate D E (getHeatmapRange D (scope (state w)) (selectedDate (state w)))"])
  case (served c rest)
  then show ?thesis
    by (simp add: sync_eq[symmetric] update_frame trusted_update new_calls_def)
next
  case (unreadable rest)
  then show ?thesis
    by (auto simp: sync_eq[symmetric] update_frame trusted_update new_calls_def)
next
  case propagated
  then show ?thesis
    by (simp add: sync_eq[symmetric] update_frame trusted_update new_calls_def sync_catch_def)
qed

text \<open>
  The scenario of the spec: the gateway is unreachable and the cache is owned by A.
\<close>

theorem fallback_only_when_trusted_witness:
  "trusted (world_with (Some (cache_of (Some ''A'')))) \<and>
   isOffline (state (sync example_deps offline (world_with (Some (cache_of (Some ''A'')))))) \<and>
   error (state (sync example_deps offline (world_with (Some (cache_of (Some ''A'')))))) = None \<and>
   habits (sync example_deps offline (world_with (Some (cache_of (Some ''A''))))) = [habit_of ''A''] \<and>
   completions (sync example_deps offline (world_with (Some (cache_of (Some ''A''))))) =
     [completion_of ''A''] \<and>
   \<not> trusted (world_with (Some (cache_of None))) \<and>
   error (state (sync example_deps offline (world_with (Some (cache_of None))))) =
     Some ''Failed to load statistics. Please try again.'' \<and>
   new_calls (world_with (Some (cache_of None)))
     (sync example_deps offline (world_with (Some (cache_of None)))) = [GetMetadata, FetchHabits] \<and>
   habits (sync example_deps offline (world_with (Some (cache_of None)))) = []"
proof -
  have f: "fetchHabits_result offline = Inl (Error ''Failed to fetch'')"
      "getMetadata_fails offline = None" "getHabits_fails offline = None"
      "getCompletions_fails offline = None"
    by (simp_all add: offline_def online_def)
  have t: "trusted (world_with (Some (cache_of (Some ''A''))))"
      "\<not> trusted (world_with (Some (cache_of None)))"
    by (simp_all add: trusted_def metadata_read_def world_with_def cache_of_def
        lastHabitsSync_of_def userId_of_def truthy_def)
  have c: "cache (world_with (Some (cache_of (Some ''A'')))) = Some (cache_of (Some ''A''))"
      "cache (world_with (Some (cache_of None))) = Some (cache_of None)"
      "habits (world_with (Some (cache_of None))) = []"
      "cached_habits (cache_of (Some ''A'')) = [habit_of ''A'']"
      "cached_completions (cache_of (Some ''A'')) = [completion_of ''A'']"
    by (simp_all add: world_with_def cache_of_def)
  show ?thesis
    using fallback_only_when_trusted[OF f(1,2), of "world_with (Some (cache_of (Some ''A'')))" example_deps]
      fallback_only_when_trusted[OF f(1,2), of "world_with (Some (cache_of None))" example_deps]
      t f(3,4) c
    by simp
qed

text \<open>
  The claim as the spec words it promises \<^verbatim>\<open>isOffline = true\<close> and no error whenever the
  metadata carries the timestamp and the owning user. Below the cache is owned by A, the
  gateway is unreachable and the read \<^verbatim>\<open>getHabits\<close> of the cache fails: the sync ends
  with the error message and \<^verbatim>\<open>isOffline\<close> is not set.
\<close>

theorem fallback_read_fails_counterexample:
  "fetchHabits_result (offline\<lparr>getHabits_fails := Some (Error ''storage'')\<rparr>) =
     Inl (Error ''Failed to fetch'') \<and>
   trusted (world_with (Some (cache_of (Some ''A'')))) \<and>
   error (state (sync example_deps (offline\<lparr>getHabits_fails := Some (Error ''storage'')\<rparr>)
      (world_with (Some (cache_of (Some ''A'')))))) =
     Some ''Failed to load statistics. Please try again.'' \<and>
   isOffline (state (sync example_deps (offline\<lparr>getHabits_fails := Some (Error ''storage'')\<rparr>)
      (world_with (Some (cache_of (Some ''A'')))))) = False"
  by (simp add: sync_defs example_defs Let_def trusted_def metadata_read_def)

subsection \<open>computeStatistics and the two intents that only recompute\<close>

text \<open>
  Claim C7. With no habit in memory, \<^verbatim>\<open>computeStatistics\<close> returns \<^verbatim>\<open>null\<close> (it
  is a total function: nothing is thrown) and publishes \<^verbatim>\<open>periodStats = null\<close>,
  \<^verbatim>\<open>trends = []\<close>, \<^verbatim>\<open>heatmap = []\<close>, \<^verbatim>\<open>snapshot = null\<close>, \<^verbatim>\<open>insights = null\<close>
  and \<^verbatim>\<open>activity = []\<close>.
\<close>

theorem computeStatistics_no_habits:
  assumes "habits w = []"
  shows "fst (computeStatistics D sc d w) = None \<and>
         periodStats (state (snd (computeStatistics D sc d w))) = None \<and>
         trends (state (snd (computeStatistics D sc d w))) = [] \<and>
         heatmap (state (snd (computeStatistics D sc d w))) = [] \<and>
         snapshot (state (snd (computeStatistics D sc d w))) = None \<and>
         insights (state (snd (computeStatistics D sc d w))) = None \<and>
         activity (state (snd (computeStatistics D sc d w))) = []"
  using assms by (simp add: computeStatistics_def update_def)

theorem computeStatistics_no_habits_witness:
  "habits (world_with None) = [] \<and>
   fst (computeStatistics example_deps Weekly 5000000000 (world_with None)) = None \<and>
   heatmap (state (snd (computeStatistics example_deps Weekly 5000000000 (world_with None)))) = [] \<and>
   periodStats (state (snd (computeStatistics example_deps Weekly 5000000000 (world_with None)))) =
     None"
proof -
  have h: "habits (world_with None) = []" by (simp add: world_with_def)
  show ?thesis
    using computeStatistics_no_habits[OF h, of example_deps Weekly 5000000000] h by simp
qed

text \<open>
  Claim C6. \<^verbatim>\<open>setScope\<close> and \<^verbatim>\<open>setSelectedDate\<close> make no call on the Remote Data
  Gateway or on the Local Store (the log of calls is unchanged, and so is the store),
  leave the habits and completions in memory as they are, and publish the new scope or
  date together with the statistics that \<^verbatim>\<open>computeStatistics\<close> derives from the
  habits and completions in memory.
\<close>

theorem intents_only_recompute:
  "calls (setScope D sc w) = calls w \<and> cache (setScope D sc w) = cache w \<and>
   habits (setScope D sc w) = habits w \<and> completions (setScope D sc w) = completions w \<and>
   scope (state (setScope D sc w)) = sc \<and>
   stats_of (state (setScope D sc w)) =
     (case fst (computeStatistics D sc (selectedDate (state w)) w) of
        None \<Rightarrow> no_statistics | Some computed \<Rightarrow> computed) \<and>
   calls (setSelectedDate D d w) = calls w \<and> cache (setSelectedDate D d w) = cache w \<and>
   habits (setSelectedDate D d w) = habits w \<and>
   completions (setSelectedDate D d w) = completions w \<and>
   selectedDate (state (setSelectedDate D d w)) = d \<and>
   stats_of (state (setSelectedDate D d w)) =
     (case fst (computeStatistics D (scope (state w)) d w) of
        None \<Rightarrow> no_statistics | Some computed \<Rightarrow> computed)"
  by (simp add: setScope_def setSelectedDate_def computeStatistics_def getState_def update_def
      Let_def spread_computed_def stats_of_def no_statistics_def)

theorem intents_only_recompute_witness:
  "calls (setScope example_deps Weekly
      (sync example_deps (online [habit_of ''A''] [completion_of ''A'']) (world_with None))) =
     calls (sync example_deps (online [habit_of ''A''] [completion_of ''A'']) (world_with None)) \<and>
   habits (setSelectedDate example_deps 7
      (sync example_deps (online [habit_of ''A''] [completion_of ''A'']) (world_with None))) =
     [habit_of ''A''] \<and>
   scope (state (setScope example_deps Weekly
      (sync example_deps (online [habit_of ''A''] [completion_of ''A'']) (world_with None)))) =
     Weekly"
proof -
  let ?w = "sync example_deps (online [habit_of ''A''] [completion_of ''A'']) (world_with None)"
  have h: "habits ?w = [habit_of ''A'']"
    by (simp add: sync_defs example_defs Let_def)
  show ?thesis
    using intents_only_recompute[of example_deps Weekly ?w 7] h by simp
qed

subsection \<open>The calls of a sync\<close>







subsection \<open>The mirror to the server-side cache\<close>




subsection \<open>Overlapping syncs\<close>

lemma forget_isSyncing:
  "update (\<lambda>s. s\<lparr>isSyncing := True, error := None\<rparr>) (update (\<lambda>s. s\<lparr>isSyncing := b\<rparr>) w) =
   update (\<lambda>s. s\<lparr>isSyncing := True, error := None\<rparr>) w"
  by (simp add: update_def)

lemma sync_ignores_isSyncing:
  "sync D E (update (\<lambda>s. s\<lparr>isSyncing := b\<rparr>) w) = sync D E w"
proof -
  have "scope (state (update (\<lambda>s. s\<lparr>isSyncing := b\<rparr>) w)) = scope (state w)"
    "selectedDate (state (update (\<lambda>s. s\<lparr>isSyncing := b\<rparr>) w)) = selectedDate (state w)"
    "(state (update (\<lambda>s. s\<lparr>isSyncing := b\<rparr>) w))\<lparr>isSyncing := True, error := None\<rparr> =
       (state w)\<lparr>isSyncing := True, error := None\<rparr>"
    by (simp_all add: update_def)
  then show ?thesis
    unfolding sync_eq forget_isSyncing by (simp only:)
qed

lemma publish_eq: "publish D E cs w = (Settled, snd (sync_publish D E cs w))"
  using sync_publish_succeeds[of D E cs w]
  by (cases "sync_publish D E cs w") (simp add: publish_def)

lemma steps_Settled: "sync_steps D E l n (Settled, w) = (Settled, w)"
  by (induction n) (simp_all add: sync_step_def)

lemma steps_unfold:
  "sync_steps D E l (Suc n) (p, w) = sync_steps D E l n (sync_step D E l p w)"
  by simp

lemma steps_catch:
  "sync_steps D E (cs, ff) (Suc (Suc n)) (inner_catch E m w) =
     (Settled,
      if isl (fst (sync_fallback E m (Error []) w))
      then sync_catch (snd (sync_fallback E m (Error []) w))
      else snd (sync_publish D E cs (snd (sync_fallback E m (Error []) w))))"
  by (simp add: inner_catch_def sync_fallback_def issue_def sync_step_def publish_eq
      steps_Settled attempt_defs cache_defs split: option.splits)


lemmas steps_simps = sync_fresh_def attempt_defs cache_defs api_defs logged_def update_def
  steps_unfold sync_step_def issue_def assign_habits_def publish_eq steps_Settled steps_catch

lemma steps_fresh:
  "sync_steps D E (cs, ff) (Suc (Suc (Suc (Suc (Suc (Suc (Suc (Suc n))))))))
     (Await_fetchHabits m (fetchHabits_result E), logged FetchHabits w) =
   (Settled,
    case fst (sync_fresh E ff m w) of
      Inr u \<Rightarrow> snd (sync_publish D E cs (snd (sync_fresh E ff m w)))
    | Inl e \<Rightarrow>
        if isl (fst (sync_fallback E m (Error []) (snd (sync_fresh E ff m w))))
        then sync_catch (snd (sync_fallback E m (Error []) (snd (sync_fresh E ff m w))))
        else snd (sync_publish D E cs (snd (sync_fallback E m (Error []) (snd (sync_fresh E ff m w))))))"
  apply (cases "fetchHabits_result E")
  subgoal by (simp add: steps_simps del: sync_steps.simps)
  apply (cases "fetchCompletions_result E ff")
  subgoal by (cases "cache w"; cases "clearAll_fails E"; simp add: steps_simps del: sync_steps.simps)
  apply (cases "cache w")
  subgoal by (simp add: steps_simps del: sync_steps.simps)
  apply (cases "setHabits_fails E")
  prefer 2
  subgoal by (cases "clearAll_fails E"; simp add: steps_simps del: sync_steps.simps)
  apply (cases "addCompletions_fails E")
  prefer 2
  subgoal by (cases "clearAll_fails E"; simp add: steps_simps del: sync_steps.simps)
  subgoal by (cases "clearAll_fails E"; cases "setMetadata_fails E";
      simp add: steps_simps del: sync_steps.simps)
  done

lemma fallback_any_error:
  "isl (fst (sync_fallback E m e w)) = isl (fst (sync_fallback E m e' w))"
  "snd (sync_fallback E m e w) = snd (sync_fallback E m e' w)"
  by (simp_all add: sync_fallback_def attempt_defs cache_defs split: option.splits)

lemma sync_resume_eq:
  "sync_resume D E (cs, ff) w =
     (case (if cache w \<noteq> None then cache_getMetadata E w else succeed None w) of
        (Inl e, w') \<Rightarrow> sync_catch w'
      | (Inr m, w') \<Rightarrow>
          (case fst (sync_fresh E ff m w') of
             Inr u \<Rightarrow> snd (sync_publish D E cs (snd (sync_fresh E ff m w')))
           | Inl e \<Rightarrow>
               if isl (fst (sync_fallback E m (Error []) (snd (sync_fresh E ff m w'))))
               then sync_catch (snd (sync_fallback E m (Error []) (snd (sync_fresh E ff m w'))))
               else snd (sync_publish D E cs
                      (snd (sync_fallback E m (Error []) (snd (sync_fresh E ff m w')))))))"
proof -
  let ?meta = "if cache w \<noteq> None then cache_getMetadata E w else succeed None w"
  have pub: "\<And>w'. (case sync_publish D E cs w' of (Inr u, w'') \<Rightarrow> w'' | (Inl e, w'') \<Rightarrow> sync_catch w'') =
      snd (sync_publish D E cs w')"
    using sync_publish_succeeds[of D E cs] by (simp add: split_beta)
  obtain r0 w0 where m0: "?meta = (r0, w0)" by (cases ?meta)
  show ?thesis
  proof (cases r0)
    case (Inl e)
    then show ?thesis
      using m0 by (simp add: sync_resume_def sync_body_def and_then_def)
  next
    case (Inr m)
    obtain r1 w1 where f1: "sync_fresh E ff m w0 = (r1, w1)" by (cases "sync_fresh E ff m w0")
    show ?thesis
    proof (cases r1)
      case (Inr u)
      then show ?thesis
        using m0 \<open>r0 = Inr m\<close> f1
        by (simp add: sync_resume_def sync_body_def and_then_def try_catch_def pub)
    next
      case (Inl e)
      obtain r2 w2 where f2: "sync_fallback E m e w1 = (r2, w2)"
        by (cases "sync_fallback E m e w1")
      have any: "isl (fst (sync_fallback E m (Error []) w1)) = isl r2"
        "snd (sync_fallback E m (Error []) w1) = w2"
        using fallback_any_error[of E m "Error []" w1 e] f2 by simp_all
      show ?thesis
        using m0 \<open>r0 = Inr m\<close> f1 Inl f2 any
        by (cases r2)
          (simp_all add: sync_resume_def sync_body_def and_then_def try_catch_def pub)
    qed
  qed
qed

lemma sync_resume_stepwise:
  "sync_steps D E (cs, ff) (Suc (Suc (Suc (Suc (Suc (Suc (Suc (Suc (Suc n)))))))))
     (if cache w \<noteq> None
      then issue (cache_getMetadata E) Await_getMetadata w
      else issue (api_fetchHabits E) (Await_fetchHabits None) w) =
   (Settled, sync_resume D E (cs, ff) w)"
proof (cases "cache w")
  case None
  then show ?thesis
    using steps_fresh[of D E cs ff "Suc n" None w]
    by (simp add: sync_resume_eq issue_def api_fetchHabits_def succeed_def
        del: sync_steps.simps)
next
  case (Some c)
  show ?thesis
  proof (cases "getMetadata_fails E")
    case None
    then show ?thesis
      using Some steps_fresh[of D E cs ff n "cached_metadata c" "logged GetMetadata w"]
      by (simp add: sync_resume_eq issue_def api_fetchHabits_def cache_getMetadata_def
          cache_read_def steps_unfold sync_step_def del: sync_steps.simps)
  next
    case (Some e)
    then show ?thesis
      using \<open>cache w = Some c\<close>
      by (simp add: sync_resume_eq issue_def cache_getMetadata_def
          cache_read_def steps_unfold sync_step_def steps_Settled del: sync_steps.simps)
  qed
qed

text \<open>
  The runs of one call of \<^verbatim>\<open>sync\<close>, when nothing else runs in between, make up \<open>sync\<close>:
  a call is settled after nine resumptions at most, and the world it leaves is the one
  \<open>sync\<close> gives.
\<close>

lemma sync_stepwise:
  "sync_steps D E (fst (sync_start D E w)) 9 (snd (sync_start D E w)) = (Settled, sync D E w)"
proof -
  obtain cs ff where l: "fst (sync_begin D E w) = (cs, ff)"
    by (cases "fst (sync_begin D E w)")
  have n: "(9::nat) = Suc (Suc (Suc (Suc (Suc (Suc (Suc (Suc (Suc 0))))))))"
    by simp
  show ?thesis
    unfolding n
    using sync_resume_stepwise[of D E cs ff 0 "snd (sync_begin D E w)"]
    by (simp add: sync_start_def Let_def l sync_def del: sync_steps.simps)
qed

lemma step_awaits_left:
  "awaits_left (fst (sync_step D E l p w)) \<le> awaits_left p - 1"
  by (cases p)
    (simp_all add: sync_step_def issue_def inner_catch_def assign_habits_def publish_eq
      split: sum.splits)

lemma step_fetches:
  "\<exists>xs. calls (snd (sync_step D E l p w)) = calls w @ xs \<and>
     count_list xs FetchHabits + fetches_ahead (fst (sync_step D E l p w)) = fetches_ahead p"
  by (cases p)
    (auto simp: sync_step_def issue_def inner_catch_def assign_habits_def publish_eq
      sync_publish_calls sync_catch_frame update_frame logged_frame cache_defs api_defs
      split: sum.splits option.splits)

lemma start_fetches:
  "\<exists>xs. calls (snd (snd (sync_start D E w))) = calls w @ xs \<and>
     count_list xs FetchHabits + fetches_ahead (fst (snd (sync_start D E w))) =
       (if cache w \<noteq> None \<and> getMetadata_fails E \<noteq> None then 0 else 1) \<and>
     set xs \<subseteq> {GetMetadata, FetchHabits}"
  by (auto simp: sync_start_def Let_def sync_begin_world issue_def update_frame logged_frame
      cache_defs api_defs split: option.splits)

lemma start_frame:
  "cache (snd (snd (sync_start D E w))) = cache w"
  "awaits_left (fst (snd (sync_start D E w))) \<le> 9"
  "state (snd (snd (sync_start D E w))) = (state w)\<lparr>isSyncing := True, error := None\<rparr>"
  by (auto simp: sync_start_def Let_def sync_begin_world issue_def update_frame logged_frame
      cache_defs api_defs split: option.splits)

lemma interleave_fetches:
  "\<exists>xs. calls (snd (snd (interleave D E1 E2 l1 l2 ts (p1, p2, w)))) = calls w @ xs \<and>
     count_list xs FetchHabits +
       fetches_ahead (fst (interleave D E1 E2 l1 l2 ts (p1, p2, w))) +
       fetches_ahead (fst (snd (interleave D E1 E2 l1 l2 ts (p1, p2, w)))) =
     fetches_ahead p1 + fetches_ahead p2"
proof (induction ts arbitrary: p1 p2 w)
  case Nil
  show ?case by simp
next
  case (Cons t ts)
  show ?case
  proof (cases t)
    case First
    define q where "q = fst (sync_step D E1 l1 p1 w)"
    define v where "v = snd (sync_step D E1 l1 p1 w)"
    have "\<exists>xs. calls v = calls w @ xs \<and>
        count_list xs FetchHabits + fetches_ahead q = fetches_ahead p1"
      unfolding q_def v_def by (rule step_fetches)
    then obtain xs where
      xs: "calls v = calls w @ xs" "count_list xs FetchHabits + fetches_ahead q = fetches_ahead p1"
      by (elim exE conjE) (rule that)
    from Cons.IH[of q p2 v] obtain ys where
      ys: "calls (snd (snd (interleave D E1 E2 l1 l2 ts (q, p2, v)))) = calls v @ ys"
        "count_list ys FetchHabits +
           fetches_ahead (fst (interleave D E1 E2 l1 l2 ts (q, p2, v))) +
           fetches_ahead (fst (snd (interleave D E1 E2 l1 l2 ts (q, p2, v)))) =
         fetches_ahead q + fetches_ahead p2"
      by (elim exE conjE) (rule that)
    have i: "interleave D E1 E2 l1 l2 (t # ts) (p1, p2, w) =
        interleave D E1 E2 l1 l2 ts (q, p2, v)"
      by (simp add: First q_def v_def)
    show ?thesis
      unfolding i using xs ys by (intro exI[of _ "xs @ ys"]) simp
  next
    case Second
    define q where "q = fst (sync_step D E2 l2 p2 w)"
    define v where "v = snd (sync_step D E2 l2 p2 w)"
    have "\<exists>xs. calls v = calls w @ xs \<and>
        count_list xs FetchHabits + fetches_ahead q = fetches_ahead p2"
      unfolding q_def v_def by (rule step_fetches)
    then obtain xs where
      xs: "calls v = calls w @ xs" "count_list xs FetchHabits + fetches_ahead q = fetches_ahead p2"
      by (elim exE conjE) (rule that)
    from Cons.IH[of p1 q v] obtain ys where
      ys: "calls (snd (snd (interleave D E1 E2 l1 l2 ts (p1, q, v)))) = calls v @ ys"
        "count_list ys FetchHabits +
           fetches_ahead (fst (interleave D E1 E2 l1 l2 ts (p1, q, v))) +
           fetches_ahead (fst (snd (interleave D E1 E2 l1 l2 ts (p1, q, v)))) =
         fetches_ahead p1 + fetches_ahead q"
      by (elim exE conjE) (rule that)
    have i: "interleave D E1 E2 l1 l2 (t # ts) (p1, p2, w) =
        interleave D E1 E2 l1 l2 ts (p1, q, v)"
      by (simp add: Second q_def v_def)
    show ?thesis
      unfolding i using xs ys by (intro exI[of _ "xs @ ys"]) simp
  qed
qed

lemma interleave_awaits_left:
  "awaits_left (fst (interleave D E1 E2 l1 l2 ts (p1, p2, w))) \<le>
     awaits_left p1 - count_list ts First \<and>
   awaits_left (fst (snd (interleave D E1 E2 l1 l2 ts (p1, p2, w)))) \<le>
     awaits_left p2 - count_list ts Second"
proof (induction ts arbitrary: p1 p2 w)
  case Nil
  show ?case by simp
next
  case (Cons t ts)
  show ?case
  proof (cases t)
    case First
    show ?thesis
      using Cons.IH[of "fst (sync_step D E1 l1 p1 w)" p2 "snd (sync_step D E1 l1 p1 w)"]
        step_awaits_left[of D E1 l1 p1 w]
      unfolding First by simp arith
  next
    case Second
    show ?thesis
      using Cons.IH[of p1 "fst (sync_step D E2 l2 p2 w)" "snd (sync_step D E2 l2 p2 w)"]
        step_awaits_left[of D E2 l2 p2 w]
      unfolding Second by simp arith
  qed
qed

lemma awaits_left_0: "(awaits_left p = 0) = (p = Settled)"
  by (cases p) simp_all

lemma refresh_twice_settles:
  assumes "9 \<le> count_list ts First" and "9 \<le> count_list ts Second"
  shows "fst (refresh_twice D E1 E2 ts w) = Settled"
    and "fst (snd (refresh_twice D E1 E2 ts w)) = Settled"
proof -
  define a where "a = sync_start D E1 w"
  define b where "b = sync_start D E2 (snd (snd a))"
  have r: "refresh_twice D E1 E2 ts w =
      interleave D E1 E2 (fst a) (fst b) ts (fst (snd a), fst (snd b), snd (snd b))"
    by (simp add: refresh_twice_def Let_def a_def b_def)
  have "awaits_left (fst (snd a)) \<le> 9" "awaits_left (fst (snd b)) \<le> 9"
    by (simp_all add: a_def b_def start_frame)
  then have "awaits_left (fst (refresh_twice D E1 E2 ts w)) = 0"
    "awaits_left (fst (snd (refresh_twice D E1 E2 ts w))) = 0"
    using interleave_awaits_left[of D E1 E2 "fst a" "fst b" ts "fst (snd a)" "fst (snd b)"
        "snd (snd b)"] assms
    unfolding r by simp_all
  then show "fst (refresh_twice D E1 E2 ts w) = Settled"
    and "fst (snd (refresh_twice D E1 E2 ts w)) = Settled"
    by (simp_all only: awaits_left_0)
qed

lemma refresh_twice_fetches:
  fixes D :: "('t, 'c, 'i, 'a, 'b, 'p) deps"
  shows "count_list (new_calls w (snd (snd (refresh_twice D E1 E2 ts w)))) FetchHabits +
     fetches_ahead (fst (refresh_twice D E1 E2 ts w)) +
     fetches_ahead (fst (snd (refresh_twice D E1 E2 ts w))) =
     (if cache w \<noteq> None \<and> getMetadata_fails E1 \<noteq> None then 0 else 1) +
     (if cache w \<noteq> None \<and> getMetadata_fails E2 \<noteq> None then 0 else 1)"
proof -
  define a where "a = sync_start D E1 w"
  define b where "b = sync_start D E2 (snd (snd a))"
  define n1 :: nat where "n1 = (if cache w \<noteq> None \<and> getMetadata_fails E1 \<noteq> None then 0 else 1)"
  define n2 :: nat where "n2 = (if cache w \<noteq> None \<and> getMetadata_fails E2 \<noteq> None then 0 else 1)"
  have r: "refresh_twice D E1 E2 ts w =
      interleave D E1 E2 (fst a) (fst b) ts (fst (snd a), fst (snd b), snd (snd b))"
    by (simp add: refresh_twice_def Let_def a_def b_def)
  have ca: "cache (snd (snd a)) = cache w"
    by (simp add: a_def start_frame)
  have "\<exists>xs. calls (snd (snd a)) = calls w @ xs \<and>
      count_list xs FetchHabits + fetches_ahead (fst (snd a)) = n1 \<and>
      set xs \<subseteq> {GetMetadata, FetchHabits}"
    unfolding a_def n1_def by (rule start_fetches)
  then obtain xs where
    xs: "calls (snd (snd a)) = calls w @ xs"
      "count_list xs FetchHabits + fetches_ahead (fst (snd a)) = n1"
    by (elim exE conjE) (rule that)
  have "\<exists>ys. calls (snd (snd b)) = calls (snd (snd a)) @ ys \<and>
      count_list ys FetchHabits + fetches_ahead (fst (snd b)) =
        (if cache (snd (snd a)) \<noteq> None \<and> getMetadata_fails E2 \<noteq> None then 0 else 1) \<and>
      set ys \<subseteq> {GetMetadata, FetchHabits}"
    unfolding b_def by (rule start_fetches)
  then have "\<exists>ys. calls (snd (snd b)) = calls (snd (snd a)) @ ys \<and>
      count_list ys FetchHabits + fetches_ahead (fst (snd b)) = n2"
    unfolding ca n2_def by blast
  then obtain ys where
    ys: "calls (snd (snd b)) = calls (snd (snd a)) @ ys"
      "count_list ys FetchHabits + fetches_ahead (fst (snd b)) = n2"
    by (elim exE conjE) (rule that)
  have "\<exists>zs. calls (snd (snd (refresh_twice D E1 E2 ts w))) = calls (snd (snd b)) @ zs \<and>
      count_list zs FetchHabits + fetches_ahead (fst (refresh_twice D E1 E2 ts w)) +
         fetches_ahead (fst (snd (refresh_twice D E1 E2 ts w))) =
       fetches_ahead (fst (snd a)) + fetches_ahead (fst (snd b))"
    unfolding r by (rule interleave_fetches)
  then obtain zs where
    zs: "calls (snd (snd (refresh_twice D E1 E2 ts w))) = calls (snd (snd b)) @ zs"
      "count_list zs FetchHabits + fetches_ahead (fst (refresh_twice D E1 E2 ts w)) +
         fetches_ahead (fst (snd (refresh_twice D E1 E2 ts w))) =
       fetches_ahead (fst (snd a)) + fetches_ahead (fst (snd b))"
    by (elim exE conjE) (rule that)
  have n: "new_calls w (snd (snd (refresh_twice D E1 E2 ts w))) = xs @ ys @ zs"
    by (simp add: new_calls_def zs(1) ys(1) xs(1))
  show ?thesis
    unfolding n n1_def[symmetric] n2_def[symmetric] using xs(2) ys(2) zs(2)
    by simp
qed

text \<open>
  Claim C3, as the code has it. \<^verbatim>\<open>sync\<close> never reads \<^verbatim>\<open>isSyncing\<close>: there is no
  in-flight guard. A sync that starts while \<^verbatim>\<open>isSyncing\<close> is true runs as any other sync
  does and leaves the same world as if the flag had been false. Two calls of
  \<^verbatim>\<open>refresh()\<close>, the second made without awaiting the first, both run to their end in
  every schedule that resumes each of them nine times or more; and with the cache open
  and both reads of the metadata successful they run two fetch cycles, however they
  interleave: \<^verbatim>\<open>fetchHabits\<close> is called twice.
\<close>

theorem no_inflight_guard:
  "sync D E (update (\<lambda>s. s\<lparr>isSyncing := b\<rparr>) w) = sync D E w \<and>
   (\<forall>ts. 9 \<le> count_list ts First \<and> 9 \<le> count_list ts Second \<longrightarrow>
      fst (refresh_twice D E1 E2 ts w) = Settled \<and>
      fst (snd (refresh_twice D E1 E2 ts w)) = Settled \<and>
      (cache w \<noteq> None \<and> getMetadata_fails E1 = None \<and> getMetadata_fails E2 = None \<longrightarrow>
         count_list (new_calls w (snd (snd (refresh_twice D E1 E2 ts w)))) FetchHabits = 2))"
proof (intro conjI allI impI)
  show "sync D E (update (\<lambda>s. s\<lparr>isSyncing := b\<rparr>) w) = sync D E w"
    by (rule sync_ignores_isSyncing)
next
  fix ts :: "turn list"
  assume t: "9 \<le> count_list ts First \<and> 9 \<le> count_list ts Second"
  show s1: "fst (refresh_twice D E1 E2 ts w) = Settled"
    using t by (simp add: refresh_twice_settles)
  show s2: "fst (snd (refresh_twice D E1 E2 ts w)) = Settled"
    using t by (simp add: refresh_twice_settles)
  assume "cache w \<noteq> None \<and> getMetadata_fails E1 = None \<and> getMetadata_fails E2 = None"
  then show "count_list (new_calls w (snd (snd (refresh_twice D E1 E2 ts w)))) FetchHabits = 2"
    using refresh_twice_fetches[of w D E1 E2 ts] s1 s2 by simp
qed

text \<open>
  The cache holds the data of A and the two calls, resumed in turn, both fetch the
  habits of B.
\<close>

theorem no_inflight_guard_witness:
  "9 \<le> count_list round_robin First \<and> 9 \<le> count_list round_robin Second \<and>
   cache (world_with (Some (cache_of (Some ''A'')))) \<noteq> None \<and>
   getMetadata_fails (online [habit_of ''B''] []) = None \<and>
   count_list (new_calls (world_with (Some (cache_of (Some ''A''))))
      (snd (snd (refresh_twice example_deps (online [habit_of ''B''] [])
         (online [habit_of ''B''] []) round_robin
         (world_with (Some (cache_of (Some ''A''))))))))
      FetchHabits = 2"
proof -
  have t: "9 \<le> count_list round_robin First \<and> 9 \<le> count_list round_robin Second"
    by (simp add: round_robin_def eval_nat_numeral)
  have c: "cache (world_with (Some (cache_of (Some ''A'')))) \<noteq> None \<and>
      getMetadata_fails (online [habit_of ''B''] []) = None \<and>
      getMetadata_fails (online [habit_of ''B''] []) = None"
    by (simp add: world_with_def online_def)
  note r = no_inflight_guard[where D = example_deps and E = "online [habit_of ''B''] []"
        and b = True and w = "world_with (Some (cache_of (Some ''A'')))"
        and ?E1.0 = "online [habit_of ''B''] []" and ?E2.0 = "online [habit_of ''B''] []",
        THEN conjunct2, THEN spec, THEN mp, OF t]
  note r2 = r[THEN conjunct2, THEN conjunct2, THEN mp, OF c]
  show ?thesis
    using t c r2 by (simp only: simp_thms)
qed

text \<open>
  The claim as the spec words it makes a sync that arrives while \<^verbatim>\<open>isSyncing\<close> is true a
  no-op. Below, the cache is open and a first \<^verbatim>\<open>refresh()\<close> has run up to its first
  \<^verbatim>\<open>await\<close>, so that \<^verbatim>\<open>isSyncing\<close> is true; a \<^verbatim>\<open>refresh()\<close> that arrives then calls
  \<^verbatim>\<open>fetchHabits\<close>. And when the two calls are resumed in turn, each of them reads the
  metadata, fetches the habits and clears the cache: two fetch cycles, not one.
\<close>

theorem second_refresh_fetches_counterexample:
  "isSyncing (state (snd (snd (sync_start example_deps (online [habit_of ''B''] [])
      (world_with (Some (cache_of (Some ''A'')))))))) \<and>
   FetchHabits \<in> set (new_calls
      (snd (snd (sync_start example_deps (online [habit_of ''B''] [])
         (world_with (Some (cache_of (Some ''A'')))))))
      (refresh example_deps (online [habit_of ''B''] [])
         (snd (snd (sync_start example_deps (online [habit_of ''B''] [])
            (world_with (Some (cache_of (Some ''A''))))))))) \<and>
   take 6 (new_calls (world_with (Some (cache_of (Some ''A''))))
      (snd (snd (refresh_twice example_deps (online [habit_of ''B''] [])
         (online [habit_of ''B''] []) round_robin
         (world_with (Some (cache_of (Some ''A''))))))))
     = [GetMetadata, GetMetadata, FetchHabits, FetchHabits, ClearAll, ClearAll] \<and>
   count_list (new_calls (world_with (Some (cache_of (Some ''A''))))
      (snd (snd (refresh_twice example_deps (online [habit_of ''B''] [])
         (online [habit_of ''B''] []) round_robin
         (world_with (Some (cache_of (Some ''A''))))))))
      FetchHabits = 2"
  by (simp add: sync_defs example_defs Let_def new_calls_def refresh_def refresh_twice_def
      round_robin_def step_defs eval_nat_numeral)

subsection \<open>The cache of an account without habits\<close>

lemma sync_fresh_metadata:
  "sync_fresh E ff m w = (r, w') \<Longrightarrow> fetchHabits_result E = Inr hs \<Longrightarrow>
   \<exists>xs. calls w' = calls w @ xs \<and>
     (\<forall>x. SetMetadata x \<in> set xs \<longrightarrow> meta_userId x = currentUserId hs)"
  by (auto simp: sync_fresh_def attempt_defs cache_defs api_defs logged_def update_def
      split: option.splits sum.splits if_splits prod.splits)

lemma sync_metadata_written:
  fixes D :: "('t, 'c, 'i, 'a, 'b, 'p) deps"
  assumes "fetchHabits_result E = Inr hs" and "SetMetadata m \<in> set (new_calls w (sync D E w))"
  shows "meta_userId m = currentUserId hs"
proof -
  let ?cs = "(state w)\<lparr>isSyncing := True, error := None\<rparr>"
  let ?ff = "getFetchFromDate D E (getHeatmapRange D (scope (state w)) (selectedDate (state w)))"
  let ?w1 = "update (\<lambda>s. s\<lparr>isSyncing := True, error := None\<rparr>) w"
  have pub: "\<And>w'. \<exists>zs. calls (snd (sync_publish D E ?cs w')) = calls w' @ zs \<and>
      (\<forall>x. SetMetadata x \<notin> set zs)"
    by (simp add: sync_publish_calls split: option.splits)
  have m2: "\<And>w2. cache ?w1 = None \<and> w2 = ?w1 \<or>
      cache ?w1 \<noteq> None \<and> getMetadata_fails E = None \<and> w2 = logged GetMetadata ?w1 \<Longrightarrow>
      \<exists>us. calls w2 = calls w @ us \<and> (\<forall>x. SetMetadata x \<notin> set us)"
    by (auto simp: logged_frame update_frame)
  show ?thesis
  proof (cases rule: sync_resume_cases[of ?w1 E D ?cs ?ff])
    case (no_metadata c e)
    then have "new_calls w (sync D E w) = [GetMetadata]"
      by (simp add: sync_eq new_calls_def sync_catch_frame logged_frame update_frame)
    then show ?thesis using assms(2) by simp
  next
    case (fresh w2 w3)
    from m2[OF fresh(1)] obtain us where
      us: "calls w2 = calls w @ us" "\<forall>x. SetMetadata x \<notin> set us" by blast
    from sync_fresh_metadata[OF fresh(2) assms(1)] obtain xs where
      xs: "calls w3 = calls w2 @ xs"
        "\<forall>x. SetMetadata x \<in> set xs \<longrightarrow> meta_userId x = currentUserId hs" by blast
    from pub[of w3] obtain zs where
      zs: "calls (snd (sync_publish D E ?cs w3)) = calls w3 @ zs" "\<forall>x. SetMetadata x \<notin> set zs"
      by blast
    have "new_calls w (sync D E w) = us @ xs @ zs"
      using fresh(3) us(1) xs(1) zs(1) by (simp add: sync_eq new_calls_def)
    then show ?thesis using assms(2) us(2) xs(2) zs(2) by auto
  next
    case (fallback w2 w3 w4 e)
    from m2[OF fallback(1)] obtain us where
      us: "calls w2 = calls w @ us" "\<forall>x. SetMetadata x \<notin> set us" by blast
    from sync_fresh_metadata[OF fallback(2) assms(1)] obtain xs where
      xs: "calls w3 = calls w2 @ xs"
        "\<forall>x. SetMetadata x \<in> set xs \<longrightarrow> meta_userId x = currentUserId hs" by blast
    from sync_fallback_calls[OF fallback(3)] obtain ys where
      ys: "calls w4 = calls w3 @ ys" "set ys \<subseteq> {GetHabits, GetCompletions}" by blast
    from pub[of w4] obtain zs where
      zs: "calls (snd (sync_publish D E ?cs w4)) = calls w4 @ zs" "\<forall>x. SetMetadata x \<notin> set zs"
      by blast
    have "new_calls w (sync D E w) = us @ xs @ ys @ zs"
      using fallback(4) us(1) xs(1) ys(1) zs(1) by (simp add: sync_eq new_calls_def)
    then show ?thesis using assms(2) us(2) xs(2) ys(2) zs(2) by auto
  next
    case (failed w2 w3 w4 e e')
    from m2[OF failed(1)] obtain us where
      us: "calls w2 = calls w @ us" "\<forall>x. SetMetadata x \<notin> set us" by blast
    from sync_fresh_metadata[OF failed(2) assms(1)] obtain xs where
      xs: "calls w3 = calls w2 @ xs"
        "\<forall>x. SetMetadata x \<in> set xs \<longrightarrow> meta_userId x = currentUserId hs" by blast
    from sync_fallback_calls[OF failed(3)] obtain ys where
      ys: "calls w4 = calls w3 @ ys" "set ys \<subseteq> {GetHabits, GetCompletions}" by blast
    have "new_calls w (sync D E w) = us @ xs @ ys"
      using failed(4) us(1) xs(1) ys(1) by (simp add: sync_eq new_calls_def sync_catch_frame)
    then show ?thesis using assms(2) us(2) xs(2) ys(2) by auto
  qed
qed

lemma sync_fresh_completed:
  fixes D :: "('t, 'c, 'i, 'a, 'b, 'p) deps"
  assumes "cache w = Some c" and "error (state (sync D E w)) = None"
    and "\<not> isOffline (state (sync D E w))"
  obtains c' where
    "cache (sync D E w) = Some c'"
    "cached_metadata c' =
       Some \<lparr>lastHabitsSync = Some (now_habitsSync E),
             lastCompletionsSync = Some (now_completionsSync E),
             version = 1,
             meta_userId = currentUserId (habits (sync D E w))\<rparr>"
    "fetchHabits_result E = Inr (habits (sync D E w))"
proof -
  let ?cs = "(state w)\<lparr>isSyncing := True, error := None\<rparr>"
  let ?ff = "getFetchFromDate D E (getHeatmapRange D (scope (state w)) (selectedDate (state w)))"
  let ?w1 = "update (\<lambda>s. s\<lparr>isSyncing := True, error := None\<rparr>) w"
  show ?thesis
  proof (cases rule: sync_resume_cases[of ?w1 E D ?cs ?ff])
    case (no_metadata c e)
    then show ?thesis using assms(2) by (simp add: sync_eq sync_catch_def update_frame)
  next
    case (fresh w2 w3)
    then have "cache w2 = Some c" using assms(1) by (auto simp: update_frame logged_frame)
    from sync_fresh_ok_cache[OF fresh(2) this] sync_fresh_ok[OF fresh(2)] fresh(3)
    show ?thesis by (auto simp: sync_eq sync_publish_frame intro: that)
  next
    case (fallback w2 w3 w4 e)
    then show ?thesis
      using assms(3) sync_fallback_ok[OF fallback(3)] by (simp add: sync_eq sync_publish_flags)
  next
    case (failed w2 w3 w4 e e')
    then show ?thesis using assms(2) by (simp add: sync_eq sync_catch_def update_frame)
  qed
qed

lemma sync_fetch_fails_untrusted:
  fixes D :: "('t, 'c, 'i, 'a, 'b, 'p) deps"
  assumes "fetchHabits_result E = Inl e" and "\<not> trusted w"
  shows "error (state (sync D E w)) = Some ''Failed to load statistics. Please try again.'' \<and>
         GetHabits \<notin> set (new_calls w (sync D E w)) \<and>
         GetCompletions \<notin> set (new_calls w (sync D E w)) \<and>
         habits (sync D E w) = habits w \<and> completions (sync D E w) = completions w"
proof (cases "getMetadata_fails E")
  case None
  let ?cs = "(state w)\<lparr>isSyncing := True, error := None\<rparr>"
  let ?ff = "getFetchFromDate D E (getHeatmapRange D (scope (state w)) (selectedDate (state w)))"
  let ?w1 = "update (\<lambda>s. s\<lparr>isSyncing := True, error := None\<rparr>) w"
  from assms(1) None show ?thesis
  proof (cases rule: sync_resume_fetch_fails[of E e ?w1 D ?cs ?ff])
    case (served c rest)
    then show ?thesis using assms(2) by (simp add: trusted_update)
  next
    case (unreadable rest)
    then show ?thesis using assms(2) by (simp add: trusted_update)
  next
    case propagated
    then show ?thesis
      by (simp add: sync_eq[symmetric] update_frame new_calls_def sync_catch_def)
  qed
next
  case (Some e')
  let ?cs = "(state w)\<lparr>isSyncing := True, error := None\<rparr>"
  let ?ff = "getFetchFromDate D E (getHeatmapRange D (scope (state w)) (selectedDate (state w)))"
  let ?w1 = "update (\<lambda>s. s\<lparr>isSyncing := True, error := None\<rparr>) w"
  show ?thesis
  proof (cases rule: sync_resume_cases[of ?w1 E D ?cs ?ff])
    case (no_metadata c e)
    then show ?thesis
      by (simp add: sync_eq new_calls_def sync_catch_frame sync_catch_def logged_frame update_frame)
  next
    case (fresh w2 w3)
    then show ?thesis
      using sync_fresh_fetch_fails[OF assms(1), of ?ff "metadata_read ?w1" w2] by simp
  next
    case (fallback w2 w3 w4 e'')
    have "cache ?w1 = None" using fallback(1) Some by auto
    then have "cache w3 = None"
      using fallback(1) sync_fresh_cache_open[OF fallback(2)] by auto
    then show ?thesis using sync_fallback_ok[OF fallback(3)] by simp
  next
    case (failed w2 w3 w4 e'' e''')
    have c: "cache ?w1 = None" "w2 = ?w1" using failed(1) Some by auto
    have w3: "w3 = logged FetchHabits w2"
      using failed(2) sync_fresh_fetch_fails[OF assms(1), of ?ff "metadata_read ?w1" w2] by simp
    then have "\<not> (cache w3 \<noteq> None \<and> lastHabitsSync_of (metadata_read ?w1) \<noteq> None \<and>
        truthy (userId_of (metadata_read ?w1)))"
      using c by (simp add: logged_frame)
    from sync_fallback_untrusted[OF this, of E e''] failed(3)
    have "w4 = w3" by simp
    then show ?thesis
      using failed(4) w3 c(2)
      by (simp add: sync_eq new_calls_def sync_catch_frame sync_catch_def logged_frame update_frame)
  qed
qed

text \<open>
  Claim C10. The owning user a sync writes into the cache metadata is the \<^verbatim>\<open>userId\<close> of the
  first fetched habit, and \<^verbatim>\<open>null\<close> when no habit was fetched: every \<^verbatim>\<open>setMetadata\<close> call
  of a sync whose fetch succeeded carries it, and after a sync that completed on the
  fresh path (no error, not offline) with the cache open it is the owner the metadata
  in the cache records. So after such a sync that fetched an empty habit list, the
  metadata in the cache has a habit-sync timestamp and no owning user.
  At the next sync, if the fetch fails, the failure propagates: the error message is set,
  the cache is not read for habits or completions and the data in memory stays; and if
  the metadata is read and the fetch succeeds, \<^verbatim>\<open>clearAll\<close> is called, before any write.
\<close>

theorem empty_account_cache_untrusted:
  "(\<forall>hs m. fetchHabits_result E = Inr hs \<and> SetMetadata m \<in> set (new_calls w (sync D E w)) \<longrightarrow>
      meta_userId m = (case hs of [] \<Rightarrow> None | first_habit # others \<Rightarrow> Some (userId first_habit))) \<and>
   (\<forall>hs. cache w \<noteq> None \<and> fetchHabits_result E = Inr hs \<and> error (state (sync D E w)) = None \<and>
      \<not> isOffline (state (sync D E w)) \<longrightarrow>
      userId_of (metadata_read (sync D E w)) =
        (case hs of [] \<Rightarrow> None | first_habit # others \<Rightarrow> Some (userId first_habit))) \<and>
   (cache w \<noteq> None \<and> fetchHabits_result E = Inr [] \<and> error (state (sync D E w)) = None \<and>
    \<not> isOffline (state (sync D E w)) \<longrightarrow>
      userId_of (metadata_read (sync D E w)) = None \<and>
      lastHabitsSync_of (metadata_read (sync D E w)) = Some (now_habitsSync E) \<and>
      (\<forall>E' e. fetchHabits_result E' = Inl e \<longrightarrow>
         error (state (sync D E' (sync D E w))) =
           Some ''Failed to load statistics. Please try again.'' \<and>
         GetHabits \<notin> set (new_calls (sync D E w) (sync D E' (sync D E w))) \<and>
         GetCompletions \<notin> set (new_calls (sync D E w) (sync D E' (sync D E w))) \<and>
         habits (sync D E' (sync D E w)) = habits (sync D E w) \<and>
         completions (sync D E' (sync D E w)) = completions (sync D E w)) \<and>
      (\<forall>E' hs. getMetadata_fails E' = None \<and> fetchHabits_result E' = Inr hs \<longrightarrow>
         ClearAll \<in> set (new_calls (sync D E w) (sync D E' (sync D E w))) \<and>
         clearAll_before_writing (new_calls (sync D E w) (sync D E' (sync D E w)))))"
proof (intro conjI allI impI)
  fix hs m
  assume "fetchHabits_result E = Inr hs \<and> SetMetadata m \<in> set (new_calls w (sync D E w))"
  then show "meta_userId m =
      (case hs of [] \<Rightarrow> None | first_habit # others \<Rightarrow> Some (userId first_habit))"
    using sync_metadata_written[of E hs m w D] by (simp add: currentUserId_def)
next
  fix hs
  assume a: "cache w \<noteq> None \<and> fetchHabits_result E = Inr hs \<and> error (state (sync D E w)) = None \<and>
    \<not> isOffline (state (sync D E w))"
  then obtain c where c: "cache w = Some c" by auto
  from a c obtain c' where c':
    "cache (sync D E w) = Some c'"
    "cached_metadata c' =
       Some \<lparr>lastHabitsSync = Some (now_habitsSync E),
             lastCompletionsSync = Some (now_completionsSync E),
             version = 1,
             meta_userId = currentUserId (habits (sync D E w))\<rparr>"
    "fetchHabits_result E = Inr (habits (sync D E w))"
    using sync_fresh_completed[of w c D E] by auto
  have h: "habits (sync D E w) = hs" using a c'(3) by simp
  show "userId_of (metadata_read (sync D E w)) =
      (case hs of [] \<Rightarrow> None | first_habit # others \<Rightarrow> Some (userId first_habit))"
    using c'(1,2) h by (simp add: metadata_read_def userId_of_def currentUserId_def)
next
  assume a: "cache w \<noteq> None \<and> fetchHabits_result E = Inr [] \<and> error (state (sync D E w)) = None \<and>
    \<not> isOffline (state (sync D E w))"
  then obtain c where c: "cache w = Some c" by auto
  from a c obtain c' where c':
    "cache (sync D E w) = Some c'"
    "cached_metadata c' =
       Some \<lparr>lastHabitsSync = Some (now_habitsSync E),
             lastCompletionsSync = Some (now_completionsSync E),
             version = 1,
             meta_userId = currentUserId (habits (sync D E w))\<rparr>"
    "fetchHabits_result E = Inr (habits (sync D E w))"
    using sync_fresh_completed[of w c D E] by auto
  have h: "habits (sync D E w) = []" using a c'(3) by simp
  have u: "userId_of (metadata_read (sync D E w)) = None"
    "lastHabitsSync_of (metadata_read (sync D E w)) = Some (now_habitsSync E)"
    using c'(1,2) h
    by (simp_all add: metadata_read_def userId_of_def lastHabitsSync_of_def currentUserId_def)
  show "userId_of (metadata_read (sync D E w)) = None" by (rule u(1))
  show "lastHabitsSync_of (metadata_read (sync D E w)) = Some (now_habitsSync E)" by (rule u(2))
  have nt: "\<not> trusted (sync D E w)"
    using u(1) by (simp add: trusted_def truthy_def)
  have mc: "\<And>hs. must_clear (cached_metadata c') hs"
    using c'(2) h
    by (simp add: must_clear_def cacheHasNoUserId_def cacheHasData_def lastHabitsSync_of_def
        userId_of_def truthy_def currentUserId_def)
  {
    fix E' :: env and e
    assume f: "fetchHabits_result E' = Inl e"
    from sync_fetch_fails_untrusted[OF f nt, of D]
    show "error (state (sync D E' (sync D E w))) =
           Some ''Failed to load statistics. Please try again.''"
      "GetHabits \<notin> set (new_calls (sync D E w) (sync D E' (sync D E w)))"
      "GetCompletions \<notin> set (new_calls (sync D E w) (sync D E' (sync D E w)))"
      "habits (sync D E' (sync D E w)) = habits (sync D E w)"
      "completions (sync D E' (sync D E w)) = completions (sync D E w)"
      by simp_all
  }
  {
    fix E' :: env and hs
    assume f: "getMetadata_fails E' = None \<and> fetchHabits_result E' = Inr hs"
    from sync_calls_fetched[OF c'(1), of E' hs D] f mc[of hs] obtain rest where
      r: "new_calls (sync D E w) (sync D E' (sync D E w)) = GetMetadata # FetchHabits # ClearAll # rest"
      by auto
    show "ClearAll \<in> set (new_calls (sync D E w) (sync D E' (sync D E w)))"
      by (simp add: r)
    show "clearAll_before_writing (new_calls (sync D E w) (sync D E' (sync D E w)))"
      by (simp add: r clearAll_before_writing_def)
  }
qed

text \<open>
  The cache holds the data of A. A sync that fetches two habits, the first of B and the
  second of C, calls \<^verbatim>\<open>setMetadata\<close> with the owner B, and B is the owner the cache
  records afterwards. A sync that fetches an empty habit list and completes leaves
  metadata without an owning user: the next sync, offline, ends with the error and
  serves nothing, and the next sync of B clears the cache.
\<close>

theorem empty_account_cache_untrusted_witness:
  "SetMetadata \<lparr>lastHabitsSync = Some 9000000001, lastCompletionsSync = Some 9000000002,
      version = 1, meta_userId = Some ''B''\<rparr> \<in>
     set (new_calls (world_with (Some (cache_of (Some ''A''))))
       (sync example_deps (online [habit_of ''B'', habit_of ''C''] [])
          (world_with (Some (cache_of (Some ''A'')))))) \<and>
   userId_of (metadata_read
      (sync example_deps (online [habit_of ''B'', habit_of ''C''] [])
         (world_with (Some (cache_of (Some ''A'')))))) = Some ''B'' \<and>
   cache (world_with (Some (cache_of (Some ''A'')))) \<noteq> None \<and>
   fetchHabits_result (online [] []) = Inr [] \<and>
   error (state (sync example_deps (online [] []) (world_with (Some (cache_of (Some ''A'')))))) = None \<and>
   \<not> isOffline (state (sync example_deps (online [] []) (world_with (Some (cache_of (Some ''A'')))))) \<and>
   userId_of (metadata_read
      (sync example_deps (online [] []) (world_with (Some (cache_of (Some ''A'')))))) = None \<and>
   error (state (sync example_deps offline
      (sync example_deps (online [] []) (world_with (Some (cache_of (Some ''A''))))))) =
     Some ''Failed to load statistics. Please try again.'' \<and>
   GetHabits \<notin> set (new_calls
      (sync example_deps (online [] []) (world_with (Some (cache_of (Some ''A'')))))
      (sync example_deps offline
        (sync example_deps (online [] []) (world_with (Some (cache_of (Some ''A''))))))) \<and>
   clearAll_before_writing (new_calls
      (sync example_deps (online [] []) (world_with (Some (cache_of (Some ''A'')))))
      (sync example_deps (online [habit_of ''B''] [])
        (sync example_deps (online [] []) (world_with (Some (cache_of (Some ''A'')))))))"
proof -
  let ?w = "world_with (Some (cache_of (Some ''A'')))"
  let ?E2 = "online [habit_of ''B'', habit_of ''C''] []"
  have s: "SetMetadata \<lparr>lastHabitsSync = Some 9000000001, lastCompletionsSync = Some 9000000002,
      version = 1, meta_userId = Some ''B''\<rparr> \<in> set (new_calls ?w (sync example_deps ?E2 ?w))"
    by (simp add: sync_defs example_defs Let_def new_calls_def)
  have b: "cache ?w \<noteq> None \<and> fetchHabits_result ?E2 = Inr [habit_of ''B'', habit_of ''C''] \<and>
      error (state (sync example_deps ?E2 ?w)) = None \<and>
      \<not> isOffline (state (sync example_deps ?E2 ?w))"
    by (simp add: sync_defs example_defs Let_def)
  have a: "cache ?w \<noteq> None \<and> fetchHabits_result (online [] []) = Inr [] \<and>
      error (state (sync example_deps (online [] []) ?w)) = None \<and>
      \<not> isOffline (state (sync example_deps (online [] []) ?w))"
    by (simp add: sync_defs example_defs Let_def)
  have f: "fetchHabits_result offline = Inl (Error ''Failed to fetch'')"
    by (simp add: offline_def online_def)
  have g: "getMetadata_fails (online [habit_of ''B''] []) = None \<and>
      fetchHabits_result (online [habit_of ''B''] []) = Inr [habit_of ''B'']"
    by (simp add: online_def)
  note q = empty_account_cache_untrusted[where E = ?E2 and w = ?w and D = example_deps,
      THEN conjunct2, THEN conjunct1, THEN spec, THEN mp, OF b]
  note r = empty_account_cache_untrusted[where E = "online [] []" and w = ?w and D = example_deps,
      THEN conjunct2, THEN conjunct2, THEN mp, OF a]
  note r1 = r[THEN conjunct1]
  note r3 = r[THEN conjunct2, THEN conjunct2, THEN conjunct1, THEN spec, THEN spec, THEN mp, OF f]
  note r4 = r[THEN conjunct2, THEN conjunct2, THEN conjunct2, THEN spec, THEN spec, THEN mp, OF g]
  have q': "userId_of (metadata_read (sync example_deps ?E2 ?w)) = Some ''B''"
    using q by (simp add: habit_of_def)
  show ?thesis
    using s q' a r1 r3 r4 by (simp only: simp_thms)
qed

end
